theory Spec2Isabelle
  imports Complex_Main "HOL-Library.Multiset"
begin

section \<open>Rasters and the numeric helpers of the source\<close>

text \<open>
  A numpy array of \<open>uint8\<close> with two axes is a list of rows. A single-channel mask
  holds values \<open>0..255\<close>; a colour image holds BGR triples. Python integers are
  unbounded, so coordinates, radii and counters are \<open>int\<close> or \<open>nat\<close>; Python floats
  are abstracted by \<open>real\<close>.
\<close>

type_synonym mask = "nat list list"
type_synonym pixel = "nat \<times> nat \<times> nat"
type_synonym image = "pixel list list"

datatype py_error = ZeroDivisionError | IndexError | ValueError | CvError

text \<open>\<open>a.shape[:2]\<close>: number of rows, then the length of a row.\<close>

definition shape :: "'a list list \<Rightarrow> nat \<times> nat" where
  "shape a = (length a, (case a of [] \<Rightarrow> 0 | r # _ \<Rightarrow> length r))"

text \<open>Every row of a well-formed array has the same length.\<close>

definition rectangular :: "'a list list \<Rightarrow> bool" where
  "rectangular a = (\<forall>r \<in> set a. length r = snd (shape a))"

text \<open>\<open>np.zeros((h, w), dtype=np.uint8)\<close>\<close>

definition np_zeros :: "nat \<Rightarrow> nat \<Rightarrow> mask" where
  "np_zeros h w = replicate h (replicate w 0)"

text \<open>\<open>np.max(a)\<close> raises \<open>ValueError\<close> on an array without elements.\<close>

definition np_max :: "mask \<Rightarrow> nat option" where
  "np_max a = (case concat a of [] \<Rightarrow> None | v # vs \<Rightarrow> Some (fold max vs v))"

text \<open>\<open>cv2.threshold(a, 127, 255, cv2.THRESH_BINARY)\<close>\<close>

definition cv_threshold :: "mask \<Rightarrow> mask" where
  "cv_threshold a = map (map (\<lambda>v. if 127 < v then 255 else 0)) a"

text \<open>
  \<open>cv2.resize(a, (w, h), interpolation=cv2.INTER_NEAREST)\<close>: the destination pixel
  \<open>(y, x)\<close> is the source pixel \<open>(y * sh div h, x * sw div w)\<close>, capped at the last
  row and column; an empty source or destination is rejected by OpenCV.
\<close>

definition cv_resize_nearest :: "mask \<Rightarrow> nat \<Rightarrow> nat \<Rightarrow> mask option" where
  "cv_resize_nearest a w h =
     (case shape a of (sh, sw) \<Rightarrow>
        if sh = 0 \<or> sw = 0 \<or> w = 0 \<or> h = 0 then None
        else Some (map (\<lambda>y. map (\<lambda>x. a ! min (sh - 1) (y * sh div h) ! min (sw - 1) (x * sw div w))
                                 [0..<w])
                       [0..<h]))"

text \<open>Python's \<open>int(x)\<close> on a float truncates towards zero.\<close>

definition py_int :: "real \<Rightarrow> int" where
  "py_int x = (if 0 \<le> x then \<lfloor>x\<rfloor> else \<lceil>x\<rceil>)"

section \<open>The external collaborators\<close>

text \<open>
  OpenCV's drawing, resampling and inpainting routines, the image decoders and
  encoders, and the file system are not part of the repository. They are parameters of
  the model: a record of functions, one per routine (or block of library calls) of the
  source. A routine that can raise returns \<open>None\<close> for the exception.
  \<^item> \<open>cv_circle m p r\<close> is \<open>cv2.circle(m, p, r, 255, -1)\<close>, \<open>cv_line m p q t\<close> is
    \<open>cv2.line(m, p, q, 255, t)\<close>, \<open>cv_inpaint\<close> is \<open>cv2.inpaint\<close>;
  \<^item> \<open>cv_imread\<close> is \<open>cv2.imread\<close> followed by the PIL fallback;
  \<^item> \<open>save_output dir path res\<close> is the block of \<open>_process_single_image\<close> that picks
    a free output name and writes the result, \<open>False\<close> when it raises;
  \<^item> \<open>pil_resize_image\<close> and \<open>pil_resize_mask\<close> are \<open>Image.resize(size, LANCZOS)\<close>,
    \<open>cv_resize_area_*\<close> are \<open>cv2.resize(.., INTER_AREA)\<close>, sizes as (width, height);
  \<^item> \<open>patchmatch_body\<close> is the \<open>try\<close> block of \<open>_patchmatch_algorithm\<close>;
  \<^item> \<open>contour_boxes\<close> is the grey conversion, adaptive threshold, closing, contour search
    and \<open>boundingRect\<close> of \<open>detect_watermark\<close>, giving boxes \<open>(x, y, w, h)\<close>;
  \<^item> \<open>roi_std_dev\<close> is \<open>np.std\<close> of a box of the grey image and \<open>roi_gradient_sum\<close> the
    sum of its Sobel gradient magnitudes.
\<close>

datatype algo = INPAINT_NS | INPAINT_TELEA

datatype read_result = Missing | Unreadable | Loaded image

type_synonym box = "nat \<times> nat \<times> nat \<times> nat"

record env =
  cv_circle :: "mask \<Rightarrow> int \<times> int \<Rightarrow> int \<Rightarrow> mask option"
  cv_line :: "mask \<Rightarrow> int \<times> int \<Rightarrow> int \<times> int \<Rightarrow> int \<Rightarrow> mask option"
  cv_inpaint :: "image \<Rightarrow> mask \<Rightarrow> int \<Rightarrow> algo \<Rightarrow> image option"
  cv_imread :: "string \<Rightarrow> read_result"
  save_output :: "string \<Rightarrow> string \<Rightarrow> image \<Rightarrow> bool"
  pil_resize_image :: "image \<Rightarrow> nat \<times> nat \<Rightarrow> image option"
  pil_resize_mask :: "mask \<Rightarrow> nat \<times> nat \<Rightarrow> mask option"
  cv_resize_area_image :: "image \<Rightarrow> nat \<times> nat \<Rightarrow> image option"
  cv_resize_area_mask :: "mask \<Rightarrow> nat \<times> nat \<Rightarrow> mask option"
  patchmatch_body :: "bool \<Rightarrow> image \<Rightarrow> mask \<Rightarrow> nat \<times> nat \<Rightarrow> image option"
  contour_boxes :: "image \<Rightarrow> box list option"
  roi_std_dev :: "image \<Rightarrow> box \<Rightarrow> real"
  roi_gradient_sum :: "image \<Rightarrow> box \<Rightarrow> real"

section \<open>The interactive remover (\<open>watermark/watermark_remover.py\<close>)\<close>

text \<open>
  The fields of \<open>WatermarkRemover\<close>. The field \<open>image\<close> is named \<open>image_cur\<close> here
  (\<open>image\<close> is a constant of HOL); \<open>masked_preview\<close>, a rendering cache recomputed
  from image and mask, is left out.
\<close>

record remover =
  image_cur :: "image option"
  original_image :: "image option"
  mask :: "mask option"
  result_image :: "image option"
  inpaint_radius :: int
  algorithm :: algo
  advanced_method :: string
  is_processing :: bool
  display_width :: int
  display_height :: int
  scale_factor :: real
  mask_history :: "mask list"
  history_index :: int

definition init_remover :: remover where
  "init_remover =
     \<lparr>image_cur = None, original_image = None, mask = None, result_image = None,
      inpaint_radius = 3, algorithm = INPAINT_TELEA, advanced_method = ''none'',
      is_processing = False, display_width = 0, display_height = 0, scale_factor = 1,
      mask_history = [], history_index = - 1\<rparr>"

text \<open>
  \<open>_save_mask_to_history\<close>. The slice \<open>mask_history[:history_index + 1]\<close> follows
  Python: a negative bound counts from the end.
\<close>

definition py_slice_to :: "'a list \<Rightarrow> int \<Rightarrow> 'a list" where
  "py_slice_to xs k = (if 0 \<le> k then take (nat k) xs else take (nat (int (length xs) + k)) xs)"

definition save_mask_to_history :: "remover \<Rightarrow> remover" where
  "save_mask_to_history s =
     (case mask s of
        None \<Rightarrow> s
      | Some m \<Rightarrow>
          let hist = (if history_index s < int (length (mask_history s)) - 1
                      then py_slice_to (mask_history s) (history_index s + 1)
                      else mask_history s);
              hist' = hist @ [m]
          in s\<lparr>mask_history := hist', history_index := int (length hist') - 1\<rparr>)"

text \<open>
  \<open>load_image\<close>. \<open>original_image\<close> is assigned before the fallback decoder runs, so a
  file that exists and cannot be decoded leaves \<open>original_image = None\<close>.
\<close>

definition load_image :: "env \<Rightarrow> string \<Rightarrow> remover \<Rightarrow> bool \<times> remover" where
  "load_image ev path s =
     (case cv_imread ev path of
        Missing \<Rightarrow> (False, s)
      | Unreadable \<Rightarrow> (False, s\<lparr>original_image := None\<rparr>)
      | Loaded img \<Rightarrow>
          (case shape img of (h, w) \<Rightarrow>
             (True, save_mask_to_history
                      (s\<lparr>original_image := Some img, image_cur := Some img,
                         mask := Some (np_zeros h w), result_image := None,
                         mask_history := [], history_index := - 1\<rparr>))))"

text \<open>\<open>str.upper\<close> and \<open>str.lower\<close>, on the ASCII letters.\<close>

definition upper_char :: "char \<Rightarrow> char" where
  "upper_char c = (let n = (of_char c :: nat) in if 97 \<le> n \<and> n \<le> 122 then char_of (n - 32) else c)"

definition lower_char :: "char \<Rightarrow> char" where
  "lower_char c = (let n = (of_char c :: nat) in if 65 \<le> n \<and> n \<le> 90 then char_of (n + 32) else c)"

definition set_algorithm :: "string \<Rightarrow> remover \<Rightarrow> remover" where
  "set_algorithm algorithm_name s =
     (if map upper_char algorithm_name = ''TELEA'' then s\<lparr>algorithm := INPAINT_TELEA\<rparr>
      else if map upper_char algorithm_name = ''NS'' then s\<lparr>algorithm := INPAINT_NS\<rparr>
      else s\<lparr>algorithm := INPAINT_TELEA\<rparr>)"

text \<open>\<open>set_inpaint_radius\<close>: \<open>max(1, min(20, radius))\<close>.\<close>

definition set_inpaint_radius :: "int \<Rightarrow> remover \<Rightarrow> remover" where
  "set_inpaint_radius radius s = s\<lparr>inpaint_radius := max 1 (min 20 radius)\<rparr>"

definition set_advanced_method :: "string \<Rightarrow> remover \<Rightarrow> remover" where
  "set_advanced_method name s = s\<lparr>advanced_method := map lower_char name\<rparr>"

text \<open>
  \<open>set_display_size\<close>: \<open>min(width / img_w, height / img_h) * 0.9\<close> when an image is
  loaded. The true division raises on an image without columns or rows.
\<close>

definition set_display_size :: "int \<Rightarrow> int \<Rightarrow> remover \<Rightarrow> py_error + remover" where
  "set_display_size width height s =
     (let s1 = s\<lparr>display_width := width, display_height := height\<rparr>
      in case image_cur s of
           None \<Rightarrow> Inr s1
         | Some img \<Rightarrow>
             (case shape img of (img_h, img_w) \<Rightarrow>
                if img_w = 0 \<or> img_h = 0 then Inl ZeroDivisionError
                else Inr (s1\<lparr>scale_factor :=
                            min (real_of_int width / real img_w) (real_of_int height / real img_h)
                              * (9 / 10)\<rparr>)))"

text \<open>
  \<open>canvas_to_image_coords\<close>. Without an image the canvas point is returned as it is;
  the division by \<open>scale_factor\<close> raises when the factor is zero.
\<close>

definition canvas_to_image_coords :: "remover \<Rightarrow> int \<times> int \<Rightarrow> py_error + int \<times> int" where
  "canvas_to_image_coords s canvas_coords =
     (case image_cur s of
        None \<Rightarrow> Inr canvas_coords
      | Some img \<Rightarrow>
          (case shape img of (img_height, img_width) \<Rightarrow>
             let canvas_width = display_width s;
                 canvas_height = display_height s;
                 scaled_width = py_int (real img_width * scale_factor s);
                 scaled_height = py_int (real img_height * scale_factor s);
                 x_offset = max 0 ((canvas_width - scaled_width) div 2);
                 y_offset = max 0 ((canvas_height - scaled_height) div 2)
             in if scale_factor s = 0 then Inl ZeroDivisionError
                else
                  let img_x = py_int (real_of_int (fst canvas_coords - x_offset) / scale_factor s);
                      img_y = py_int (real_of_int (snd canvas_coords - y_offset) / scale_factor s);
                      img_x' = max 0 (min img_x (int img_width - 1));
                      img_y' = max 0 (min img_y (int img_height - 1))
                  in Inr (img_x', img_y')))"

text \<open>Sequencing of calls that may raise: the first exception ends the computation.\<close>

definition bind_err :: "'e + 'a \<Rightarrow> ('a \<Rightarrow> 'e + 'b) \<Rightarrow> 'e + 'b" where
  "bind_err r f = (case r of Inl e \<Rightarrow> Inl e | Inr v \<Rightarrow> f v)"

definition cv_call :: "mask option \<Rightarrow> py_error + mask" where
  "cv_call r = (case r of None \<Rightarrow> Inl CvError | Some m \<Rightarrow> Inr m)"

text \<open>
  The guard that opens every paint operation: a mask whose shape differs from the
  image's is replaced by a zero mask of the image's shape.
\<close>

definition conform_mask :: "image \<Rightarrow> mask \<Rightarrow> mask" where
  "conform_mask img m =
     (if shape m \<noteq> shape img then (case shape img of (h, w) \<Rightarrow> np_zeros h w) else m)"

text \<open>\<open>0 <= p[0] < mask.shape[1] and 0 <= p[1] < mask.shape[0]\<close>\<close>

definition in_bounds :: "mask \<Rightarrow> int \<times> int \<Rightarrow> bool" where
  "in_bounds m p =
     (0 \<le> fst p \<and> fst p < int (snd (shape m)) \<and> 0 \<le> snd p \<and> snd p < int (fst (shape m)))"

text \<open>\<open>start_draw\<close>: the first point of a stroke, a filled circle of radius
  \<open>max(1, brush_size // 2)\<close>.\<close>

definition start_draw :: "env \<Rightarrow> int \<times> int \<Rightarrow> int \<Rightarrow> remover \<Rightarrow> py_error + remover" where
  "start_draw ev canvas_point brush_size s =
     (case image_cur s of
        None \<Rightarrow> Inr s
      | Some img \<Rightarrow>
          (case mask s of
             None \<Rightarrow> Inr s
           | Some m0 \<Rightarrow>
               let m = conform_mask img m0;
                   s1 = s\<lparr>mask := Some m\<rparr>
               in bind_err (canvas_to_image_coords s1 canvas_point) (\<lambda>img_point.
                    let radius = max 1 (brush_size div 2)
                    in if in_bounds m img_point
                       then bind_err (cv_call (cv_circle ev m img_point radius))
                              (\<lambda>m1. Inr (s1\<lparr>mask := Some m1\<rparr>))
                       else Inr s1)))"

text \<open>\<open>add_mask_region\<close>: a filled circle at every point of the list that maps into
  the mask.\<close>

fun paint_points :: "env \<Rightarrow> remover \<Rightarrow> int \<Rightarrow> (int \<times> int) list \<Rightarrow> mask \<Rightarrow> py_error + mask" where
  "paint_points ev s radius [] m = Inr m"
| "paint_points ev s radius (point # points) m =
     (case canvas_to_image_coords s point of
        Inl e \<Rightarrow> Inl e
      | Inr img_point \<Rightarrow>
          if in_bounds m img_point
          then (case cv_circle ev m img_point radius of
                  None \<Rightarrow> Inl CvError
                | Some m1 \<Rightarrow> paint_points ev s radius points m1)
          else paint_points ev s radius points m)"

definition add_mask_region :: "env \<Rightarrow> (int \<times> int) list \<Rightarrow> int \<Rightarrow> remover \<Rightarrow> py_error + remover" where
  "add_mask_region ev canvas_points radius s =
     (case image_cur s of
        None \<Rightarrow> Inr s
      | Some img \<Rightarrow>
          (case mask s of
             None \<Rightarrow> Inr s
           | Some m0 \<Rightarrow>
               let m = conform_mask img m0;
                   s1 = s\<lparr>mask := Some m\<rparr>
               in bind_err (paint_points ev s1 radius canvas_points m)
                    (\<lambda>m1. Inr (s1\<lparr>mask := Some m1\<rparr>))))"

text \<open>
  \<open>draw_line_on_mask\<close>: a line of width \<open>brush_size\<close> and a filled circle at each
  end. The value \<open>rnd\<close> is what \<open>np.random.random()\<close> returns in this call: below
  \<open>0.2\<close> the mask is pushed to the history.
\<close>

definition draw_line_on_mask ::
  "env \<Rightarrow> real \<Rightarrow> int \<times> int \<Rightarrow> int \<times> int \<Rightarrow> int \<Rightarrow> remover \<Rightarrow> py_error + remover" where
  "draw_line_on_mask ev rnd start_canvas_coords end_canvas_coords brush_size s =
     (case image_cur s of
        None \<Rightarrow> Inr s
      | Some img \<Rightarrow>
          (case mask s of
             None \<Rightarrow> Inr s
           | Some m0 \<Rightarrow>
               let m = conform_mask img m0;
                   s1 = s\<lparr>mask := Some m\<rparr>
               in bind_err (canvas_to_image_coords s1 start_canvas_coords) (\<lambda>start_img.
                  bind_err (canvas_to_image_coords s1 end_canvas_coords) (\<lambda>end_img.
                  bind_err
                    (if in_bounds m start_img \<and> in_bounds m end_img
                     then
                       let radius = max 1 (brush_size div 2)
                       in bind_err (cv_call (cv_line ev m start_img end_img brush_size)) (\<lambda>m1.
                          bind_err (cv_call (cv_circle ev m1 start_img radius)) (\<lambda>m2.
                          bind_err (cv_call (cv_circle ev m2 end_img radius)) (\<lambda>m3.
                          Inr (s1\<lparr>mask := Some m3\<rparr>))))
                     else Inr s1)
                    (\<lambda>s2. Inr (if rnd < 2 / 10 then save_mask_to_history s2 else s2))))))"

definition clear_mask :: "remover \<Rightarrow> remover" where
  "clear_mask s =
     (case image_cur s of
        None \<Rightarrow> s
      | Some img \<Rightarrow> (case shape img of (h, w) \<Rightarrow> s\<lparr>mask := Some (np_zeros h w)\<rparr>))"

text \<open>
  \<open>remove_watermark\<close>. \<open>inpaint_request\<close> is the part of its \<open>try\<close> block before the
  oracle call: it gives the arguments \<open>cv2.inpaint\<close> is called with, or \<open>None\<close> when
  the call is not reached (an exception, or a binarised mask whose maximum is 0). Every
  exception inside the block is caught and turned into the return value \<open>False\<close>.
\<close>

definition inpaint_request :: "remover \<Rightarrow> (image \<times> mask \<times> int \<times> algo) option" where
  "inpaint_request s =
     (case original_image s of
        None \<Rightarrow> None
      | Some orig \<Rightarrow>
          (case mask s of
             None \<Rightarrow> None
           | Some m \<Rightarrow>
               (case shape orig of (h, w) \<Rightarrow>
                  (case cv_resize_nearest m w h of
                     None \<Rightarrow> None
                   | Some mask_resized \<Rightarrow>
                       let mask_binary = cv_threshold mask_resized
                       in (case np_max mask_binary of
                             None \<Rightarrow> None
                           | Some mx \<Rightarrow>
                               if mx = 0 then None
                               else Some (orig, mask_binary, inpaint_radius s, algorithm s))))))"

definition remove_watermark :: "env \<Rightarrow> remover \<Rightarrow> bool \<times> remover" where
  "remove_watermark ev s =
     (if image_cur s = None \<or> mask s = None then (False, s)
      else
        (case inpaint_request s of
           None \<Rightarrow> (False, s\<lparr>is_processing := False\<rparr>)
         | Some (orig, mask_binary, radius, alg) \<Rightarrow>
             (case cv_inpaint ev orig mask_binary radius alg of
                None \<Rightarrow> (False, s\<lparr>is_processing := False\<rparr>)
              | Some res \<Rightarrow> (True, s\<lparr>result_image := Some res, is_processing := False\<rparr>))))"

definition continue_edit_result :: "remover \<Rightarrow> bool \<times> remover" where
  "continue_edit_result s =
     (case result_image s of
        None \<Rightarrow> (False, s)
      | Some res \<Rightarrow>
          (case shape res of (h, w) \<Rightarrow>
             (True, (save_mask_to_history
                       (s\<lparr>image_cur := Some res, original_image := Some res,
                          mask := Some (np_zeros h w),
                          mask_history := [], history_index := - 1\<rparr>))
                    \<lparr>result_image := None\<rparr>)))"

text \<open>Python's \<open>xs[i]\<close>: a negative index counts from the end, out of range raises.\<close>

definition py_index :: "'a list \<Rightarrow> int \<Rightarrow> py_error + 'a" where
  "py_index xs i =
     (if 0 \<le> i \<and> i < int (length xs) then Inr (xs ! nat i)
      else if i < 0 \<and> - int (length xs) \<le> i then Inr (xs ! nat (int (length xs) + i))
      else Inl IndexError)"

definition undo_mask :: "remover \<Rightarrow> py_error + bool \<times> remover" where
  "undo_mask s =
     (if mask_history s = [] \<or> history_index s \<le> 0 then Inr (False, s)
      else
        let s1 = s\<lparr>history_index := history_index s - 1\<rparr>
        in bind_err (py_index (mask_history s1) (history_index s1))
             (\<lambda>m. Inr (True, s1\<lparr>mask := Some m\<rparr>)))"

definition redo_mask :: "remover \<Rightarrow> py_error + bool \<times> remover" where
  "redo_mask s =
     (if int (length (mask_history s)) - 1 \<le> history_index s then Inr (False, s)
      else
        let s1 = s\<lparr>history_index := history_index s + 1\<rparr>
        in bind_err (py_index (mask_history s1) (history_index s1))
             (\<lambda>m. Inr (True, s1\<lparr>mask := Some m\<rparr>)))"

subsection \<open>Sequences of calls\<close>

text \<open>
  The state-changing methods of the class, as the commands of a small machine; a
  sequence of calls runs until the first exception.
\<close>

datatype op =
    LoadImage string
  | SetAlgorithm string
  | SetInpaintRadius int
  | SetAdvancedMethod string
  | SetDisplaySize int int
  | AddMaskRegion "(int \<times> int) list" int
  | StartDraw "int \<times> int" int
  | DrawLineOnMask real "int \<times> int" "int \<times> int" int
  | ClearMask
  | RemoveWatermark
  | ContinueEditResult
  | SaveMaskToHistory
  | UndoMask
  | RedoMask

fun exec :: "env \<Rightarrow> op \<Rightarrow> remover \<Rightarrow> py_error + remover" where
  "exec ev (LoadImage path) s = Inr (snd (load_image ev path s))"
| "exec ev (SetAlgorithm name) s = Inr (set_algorithm name s)"
| "exec ev (SetInpaintRadius r) s = Inr (set_inpaint_radius r s)"
| "exec ev (SetAdvancedMethod m) s = Inr (set_advanced_method m s)"
| "exec ev (SetDisplaySize w h) s = set_display_size w h s"
| "exec ev (AddMaskRegion ps r) s = add_mask_region ev ps r s"
| "exec ev (StartDraw p b) s = start_draw ev p b s"
| "exec ev (DrawLineOnMask rnd p q b) s = draw_line_on_mask ev rnd p q b s"
| "exec ev ClearMask s = Inr (clear_mask s)"
| "exec ev RemoveWatermark s = Inr (snd (remove_watermark ev s))"
| "exec ev ContinueEditResult s = Inr (snd (continue_edit_result s))"
| "exec ev SaveMaskToHistory s = Inr (save_mask_to_history s)"
| "exec ev UndoMask s = bind_err (undo_mask s) (\<lambda>r. Inr (snd r))"
| "exec ev RedoMask s = bind_err (redo_mask s) (\<lambda>r. Inr (snd r))"

fun run :: "env \<Rightarrow> op list \<Rightarrow> remover \<Rightarrow> py_error + remover" where
  "run ev [] s = Inr s"
| "run ev (x # xs) s = (case exec ev x s of Inl e \<Rightarrow> Inl e | Inr s1 \<Rightarrow> run ev xs s1)"

text \<open>
  A stroke as the tab drives it (\<open>watermark_tab.py\<close>): \<open>_start_draw\<close> on button
  press, \<open>_draw\<close> on every pointer motion, \<open>_stop_draw\<close> on release. Each handler
  first passes the canvas size to \<open>set_display_size\<close>; \<open>_stop_draw\<close> pushes the
  end-of-stroke snapshot. Every motion carries the random value its
  \<open>draw_line_on_mask\<close> call draws.
\<close>

record stroke =
  canvas_size :: "int \<times> int"
  first_point :: "int \<times> int"
  brush :: int
  motions :: "((int \<times> int) \<times> real) list"

fun motion_ops :: "int \<times> int \<Rightarrow> int \<Rightarrow> int \<times> int \<Rightarrow> ((int \<times> int) \<times> real) list \<Rightarrow> op list" where
  "motion_ops sz b last_pt [] = []"
| "motion_ops sz b last_pt ((p, rnd) # ms) =
     SetDisplaySize (fst sz) (snd sz) # DrawLineOnMask rnd last_pt p b # motion_ops sz b p ms"

definition stroke_ops :: "stroke \<Rightarrow> op list" where
  "stroke_ops st =
     SetDisplaySize (fst (canvas_size st)) (snd (canvas_size st))
       # StartDraw (first_point st) (brush st)
       # motion_ops (canvas_size st) (brush st) (first_point st) (motions st)
       @ [SaveMaskToHistory]"

text \<open>The snapshots a stroke pushes: one at its end, and one for every motion whose
  random value is below \<open>0.2\<close>.\<close>

definition mid_snapshots :: "stroke \<Rightarrow> nat" where
  "mid_snapshots st = length (filter (\<lambda>m. snd m < 2 / 10) (motions st))"

definition snapshots :: "stroke list \<Rightarrow> nat" where
  "snapshots sts = length sts + sum_list (map mid_snapshots sts)"

text \<open>\<open>undo()\<close> and \<open>redo()\<close> applied \<open>n\<close> times; the result says whether every
  call returned \<open>True\<close>.\<close>

fun undo_times :: "nat \<Rightarrow> remover \<Rightarrow> py_error + bool \<times> remover" where
  "undo_times 0 s = Inr (True, s)"
| "undo_times (Suc n) s =
     (case undo_mask s of
        Inl e \<Rightarrow> Inl e
      | Inr (ok, s1) \<Rightarrow>
          (case undo_times n s1 of Inl e \<Rightarrow> Inl e | Inr (oks, s2) \<Rightarrow> Inr (ok \<and> oks, s2)))"

fun redo_times :: "nat \<Rightarrow> remover \<Rightarrow> py_error + bool \<times> remover" where
  "redo_times 0 s = Inr (True, s)"
| "redo_times (Suc n) s =
     (case redo_mask s of
        Inl e \<Rightarrow> Inl e
      | Inr (ok, s1) \<Rightarrow>
          (case redo_times n s1 of Inl e \<Rightarrow> Inl e | Inr (oks, s2) \<Rightarrow> Inr (ok \<and> oks, s2)))"

section \<open>The core remover (\<open>core/watermark_remover.py\<close>)\<close>

text \<open>
  A PIL image of mode \<open>L\<close> is a \<open>mask\<close>, one of mode \<open>RGB\<close> an \<open>image\<close>; its
  \<open>size\<close> is (width, height). \<open>display_image\<close>, a rendering cache, is left out. The
  calls of \<open>logging\<close> are collected in the field \<open>c_log\<close>. The fields carry the
  prefix \<open>c_\<close> to keep them apart from those of the interactive remover.
\<close>

datatype removal = Basic | NS | Telea | PatchMatch

datatype log_level = INFO | WARNING | ERROR

datatype log_event =
    LogNoImageOrMask
  | LogNoMaskMarked
  | LogRemovalDone
  | LogRemovalFailed
  | LogAutoChoice removal
  | LogPatchMatchFallback
  | LogDetectFailed

fun level :: "log_event \<Rightarrow> log_level" where
  "level LogNoImageOrMask = ERROR"
| "level LogNoMaskMarked = WARNING"
| "level LogRemovalDone = INFO"
| "level LogRemovalFailed = ERROR"
| "level (LogAutoChoice m) = INFO"
| "level LogPatchMatchFallback = ERROR"
| "level LogDetectFailed = ERROR"

record region =
  rx :: nat
  ry :: nat
  rwidth :: nat
  rheight :: nat
  rarea :: nat
  confidence :: real

record core =
  c_original_image :: "image option"
  c_current_image :: "image option"
  c_mask :: "mask option"
  c_brush_size :: int
  c_last_point :: "(int \<times> int) option"
  c_detected_regions :: "region list"
  c_algorithm :: string
  c_processing :: bool
  c_preview_quality :: int
  c_log :: "log_event list"

definition pil_size :: "'a list list \<Rightarrow> nat \<times> nat" where
  "pil_size a = (snd (shape a), fst (shape a))"

definition pil_to_cv :: "image \<Rightarrow> image" where
  "pil_to_cv img = map (map (\<lambda>(r, g, b). (b, g, r))) img"

definition cv_to_pil :: "image \<Rightarrow> image" where
  "cv_to_pil img = map (map (\<lambda>(b, g, r). (r, g, b))) img"

text \<open>\<open>inpaint_image\<close> of \<open>utils/image_utils.py\<close>; the method is \<open>'ns'\<close> or \<open>'telea'\<close>.\<close>

definition inpaint_image :: "env \<Rightarrow> image \<Rightarrow> mask \<Rightarrow> algo \<Rightarrow> image option" where
  "inpaint_image ev img m inpaint_method =
     map_option cv_to_pil (cv_inpaint ev (pil_to_cv img) (cv_threshold m) 3 inpaint_method)"

text \<open>The size of the preview: \<open>(int(w * q / 100), int(h * q / 100))\<close>.\<close>

definition preview_size :: "int \<Rightarrow> 'a list list \<Rightarrow> nat \<times> nat" where
  "preview_size q a =
     (let scale_factor = real_of_int q / 100
      in (nat (py_int (real (fst (pil_size a)) * scale_factor)),
          nat (py_int (real (snd (pil_size a)) * scale_factor))))"

text \<open>\<open>_basic_remove\<close>, \<open>_ns_algorithm\<close> and \<open>_telea_algorithm\<close> share one shape: in
  preview mode shrink image and mask, inpaint, and enlarge the result.\<close>

definition shrink_inpaint_enlarge :: "env \<Rightarrow> algo \<Rightarrow> bool \<Rightarrow> int \<Rightarrow> image \<Rightarrow> mask \<Rightarrow> image option" where
  "shrink_inpaint_enlarge ev alg preview q img m =
     (if preview then
        (case pil_resize_image ev img (preview_size q img) of
           None \<Rightarrow> None
         | Some small_image \<Rightarrow>
             (case pil_resize_mask ev m (preview_size q img) of
                None \<Rightarrow> None
              | Some small_mask \<Rightarrow>
                  (case inpaint_image ev small_image small_mask alg of
                     None \<Rightarrow> None
                   | Some result_small \<Rightarrow> pil_resize_image ev result_small (pil_size img))))
      else inpaint_image ev img m alg)"

definition basic_remove :: "env \<Rightarrow> bool \<Rightarrow> int \<Rightarrow> image \<Rightarrow> mask \<Rightarrow> image option" where
  "basic_remove ev = shrink_inpaint_enlarge ev INPAINT_NS"

definition ns_algorithm :: "env \<Rightarrow> bool \<Rightarrow> int \<Rightarrow> image \<Rightarrow> mask \<Rightarrow> image option" where
  "ns_algorithm ev = shrink_inpaint_enlarge ev INPAINT_NS"

definition telea_algorithm :: "env \<Rightarrow> bool \<Rightarrow> int \<Rightarrow> image \<Rightarrow> mask \<Rightarrow> image option" where
  "telea_algorithm ev = shrink_inpaint_enlarge ev INPAINT_TELEA"

text \<open>\<open>_patchmatch_algorithm\<close>: an exception inside its \<open>try\<close> block is logged and
  answered by the Telea algorithm; one before the block propagates.\<close>

definition patchmatch_algorithm ::
  "env \<Rightarrow> bool \<Rightarrow> int \<Rightarrow> image \<Rightarrow> mask \<Rightarrow> log_event list \<times> image option" where
  "patchmatch_algorithm ev preview q img m =
     (let cv_image = pil_to_cv img;
          cv_mask = cv_threshold m;
          prepared =
            (if preview then
               (case cv_resize_area_image ev cv_image (preview_size q cv_image) of
                  None \<Rightarrow> None
                | Some ci \<Rightarrow>
                    (case cv_resize_area_mask ev cv_mask (preview_size q cv_image) of
                       None \<Rightarrow> None
                     | Some cm \<Rightarrow> Some (ci, cv_threshold cm)))
             else Some (cv_image, cv_mask))
      in case prepared of
           None \<Rightarrow> ([], None)
         | Some (ci, cm) \<Rightarrow>
             (case patchmatch_body ev preview ci cm (pil_size img) of
                Some r \<Rightarrow> ([], Some r)
              | None \<Rightarrow> ([LogPatchMatchFallback], telea_algorithm ev preview q img m)))"

subsection \<open>The automatic choice\<close>

text \<open>
  \<open>cv2.dilate\<close> and \<open>cv2.erode\<close> with a 3 x 3 kernel of ones, one iteration: the
  maximum and the minimum over the neighbours inside the array (the default border does
  not take part).
\<close>

definition neighbours3 :: "mask \<Rightarrow> nat \<Rightarrow> nat \<Rightarrow> nat list" where
  "neighbours3 a y x =
     concat (map (\<lambda>y'. map (\<lambda>x'. a ! y' ! x') [x - 1 ..< min (length (a ! y')) (x + 2)])
                 [y - 1 ..< min (length a) (y + 2)])"

definition cv_dilate3 :: "mask \<Rightarrow> mask" where
  "cv_dilate3 a =
     map (\<lambda>y. map (\<lambda>x. fold max (neighbours3 a y x) 0) [0 ..< length (a ! y)]) [0 ..< length a]"

definition cv_erode3 :: "mask \<Rightarrow> mask" where
  "cv_erode3 a =
     map (\<lambda>y. map (\<lambda>x. fold min (neighbours3 a y x) 255) [0 ..< length (a ! y)]) [0 ..< length a]"

text \<open>\<open>dilated - eroded\<close> on \<open>uint8\<close> arrays (wrapping), and \<open>np.sum(a > t)\<close>.\<close>

definition np_sub_u8 :: "mask \<Rightarrow> mask \<Rightarrow> mask" where
  "np_sub_u8 a b = map2 (map2 (\<lambda>u v. (u + 256 - v) mod 256)) a b"

definition count_gt :: "nat \<Rightarrow> mask \<Rightarrow> nat" where
  "count_gt t a = length (filter (\<lambda>v. t < v) (concat a))"

text \<open>
  \<open>mask_area\<close>: the marked fraction. numpy divides by zero without raising; the
  quotient \<open>0 / 0\<close> of a mask without pixels is \<open>nan\<close>, here \<open>None\<close>, and every
  comparison with it is false.
\<close>

definition mask_area :: "mask \<Rightarrow> real option" where
  "mask_area m =
     (let total_pixels = fst (pil_size m) * snd (pil_size m)
      in if total_pixels = 0 then None else Some (real (count_gt 127 m) / real total_pixels))"

definition complexity :: "mask \<Rightarrow> real" where
  "complexity m =
     (let edge = np_sub_u8 (cv_dilate3 m) (cv_erode3 m)
      in if 0 < count_gt 127 m then real (count_gt 0 edge) / real (count_gt 127 m) else 0)"

definition float_lt :: "real option \<Rightarrow> real \<Rightarrow> bool" where
  "float_lt a b = (case a of None \<Rightarrow> False | Some x \<Rightarrow> x < b)"

text \<open>The branches of \<open>_auto_algorithm\<close>, on the two numbers it computes.\<close>

definition auto_choice :: "real option \<Rightarrow> real \<Rightarrow> removal" where
  "auto_choice area cplx =
     (if float_lt area (1 / 100) then (if 2 / 10 < cplx then Telea else NS)
      else if float_lt area (1 / 10) then (if 3 / 10 < cplx then PatchMatch else Telea)
      else PatchMatch)"

definition auto_select :: "mask \<Rightarrow> removal" where
  "auto_select m = auto_choice (mask_area m) (complexity m)"

definition run_method ::
  "env \<Rightarrow> removal \<Rightarrow> bool \<Rightarrow> int \<Rightarrow> image \<Rightarrow> mask \<Rightarrow> log_event list \<times> image option" where
  "run_method ev meth preview q img m =
     (case meth of
        Basic \<Rightarrow> ([], basic_remove ev preview q img m)
      | NS \<Rightarrow> ([], ns_algorithm ev preview q img m)
      | Telea \<Rightarrow> ([], telea_algorithm ev preview q img m)
      | PatchMatch \<Rightarrow> patchmatch_algorithm ev preview q img m)"

definition auto_algorithm ::
  "env \<Rightarrow> bool \<Rightarrow> int \<Rightarrow> image \<Rightarrow> mask \<Rightarrow> log_event list \<times> image option" where
  "auto_algorithm ev preview q img m =
     (let meth = auto_select m;
          r = run_method ev meth preview q img m
      in (LogAutoChoice meth # fst r, snd r))"

subsection \<open>\<open>remove_watermark\<close> of the core remover\<close>

text \<open>
  The result is \<open>Optional[Image]\<close>. The test \<open>np.max(mask_array) == 0\<close> stands before
  the \<open>try\<close> block, so the \<open>ValueError\<close> of an array without elements propagates.
  An unknown algorithm code runs the NS algorithm.
\<close>

definition dispatch ::
  "env \<Rightarrow> string \<Rightarrow> bool \<Rightarrow> int \<Rightarrow> image \<Rightarrow> mask \<Rightarrow> log_event list \<times> image option" where
  "dispatch ev code preview q img m =
     (if code = ''basic'' then run_method ev Basic preview q img m
      else if code = ''ns'' then run_method ev NS preview q img m
      else if code = ''telea'' then run_method ev Telea preview q img m
      else if code = ''patchmatch'' then run_method ev PatchMatch preview q img m
      else if code = ''auto'' then auto_algorithm ev preview q img m
      else run_method ev NS preview q img m)"

definition core_remove_watermark :: "env \<Rightarrow> bool \<Rightarrow> core \<Rightarrow> py_error + image option \<times> core" where
  "core_remove_watermark ev preview s =
     (case c_original_image s of
        None \<Rightarrow> Inr (None, s\<lparr>c_log := c_log s @ [LogNoImageOrMask]\<rparr>)
      | Some img \<Rightarrow>
          (case c_mask s of
             None \<Rightarrow> Inr (None, s\<lparr>c_log := c_log s @ [LogNoImageOrMask]\<rparr>)
           | Some m \<Rightarrow>
               (case np_max m of
                  None \<Rightarrow> Inl ValueError
                | Some mx \<Rightarrow>
                    if mx = 0 then Inr (Some img, s\<lparr>c_log := c_log s @ [LogNoMaskMarked]\<rparr>)
                    else
                      (case dispatch ev (c_algorithm s) preview (c_preview_quality s) img m of
                         (logs, None) \<Rightarrow>
                           Inr (None, s\<lparr>c_processing := False,
                                         c_log := c_log s @ logs @ [LogRemovalFailed]\<rparr>)
                       | (logs, Some res) \<Rightarrow>
                           Inr (Some res, s\<lparr>c_current_image := Some res, c_processing := False,
                                             c_log := c_log s @ logs @ [LogRemovalDone]\<rparr>)))))"

subsection \<open>\<open>detect_watermark\<close>\<close>

text \<open>Python's \<open>min(a, b)\<close> and \<open>max(a, b)\<close> return the first argument unless the
  second is strictly smaller (larger).\<close>

definition py_min :: "real \<Rightarrow> real \<Rightarrow> real" where
  "py_min a b = (if b < a then b else a)"

definition py_max :: "real \<Rightarrow> real \<Rightarrow> real" where
  "py_max a b = (if a < b then b else a)"

definition calculate_watermark_confidence :: "env \<Rightarrow> image \<Rightarrow> box \<Rightarrow> real" where
  "calculate_watermark_confidence ev img b =
     (case b of (x, y, w, h) \<Rightarrow>
        let std_dev = roi_std_dev ev img b;
            gradient_sum = roi_gradient_sum ev img b;
            normalized_gradient = gradient_sum / real (w * h);
            conf = (1 - std_dev / 255) * (5 / 10) + (normalized_gradient / 100) * (5 / 10)
        in py_max 0 (py_min 1 conf))"

definition area_ok :: "nat \<Rightarrow> box \<Rightarrow> bool" where
  "area_ok img_area b =
     (case b of (x, y, w, h) \<Rightarrow>
        real img_area / 1000 < real (w * h) \<and> real (w * h) < real img_area * (2 / 10))"

definition make_region :: "env \<Rightarrow> image \<Rightarrow> box \<Rightarrow> region" where
  "make_region ev img b =
     (case b of (x, y, w, h) \<Rightarrow>
        \<lparr>rx = x, ry = y, rwidth = w, rheight = h, rarea = w * h,
         confidence = calculate_watermark_confidence ev img b\<rparr>)"

text \<open>\<open>ImageDraw.rectangle([x0, y0, x1, y1], fill=255)\<close>: both corners are inside.\<close>

definition pil_rectangle :: "mask \<Rightarrow> nat \<Rightarrow> nat \<Rightarrow> nat \<Rightarrow> nat \<Rightarrow> mask" where
  "pil_rectangle m x0 y0 x1 y1 =
     map (\<lambda>(py, row).
            map (\<lambda>(px, v). if x0 \<le> px \<and> px \<le> x1 \<and> y0 \<le> py \<and> py \<le> y1 then 255 else v)
                (enumerate 0 row))
         (enumerate 0 m)"

definition mark_region :: "region \<Rightarrow> mask \<Rightarrow> mask" where
  "mark_region r m = pil_rectangle m (rx r) (ry r) (rx r + rwidth r) (ry r + rheight r)"

text \<open>
  \<open>detected_regions.sort(key=confidence, reverse=True)\<close> is stable: regions of equal
  confidence keep their order. \<open>sort_key\<close> on the negated key does the same. Any
  exception inside the \<open>try\<close> block is logged and answered by the empty list.
\<close>

definition detect_watermark :: "env \<Rightarrow> core \<Rightarrow> region list \<times> core" where
  "detect_watermark ev s =
     (case c_original_image s of
        None \<Rightarrow> ([], s)
      | Some img \<Rightarrow>
          (case contour_boxes ev img of
             None \<Rightarrow> ([], s\<lparr>c_log := c_log s @ [LogDetectFailed]\<rparr>)
           | Some boxes \<Rightarrow>
               let img_area = fst (pil_size img) * snd (pil_size img);
                   detected_regions = map (make_region ev img) (filter (area_ok img_area) boxes);
                   sorted_regions = sort_key (\<lambda>r. - confidence r) detected_regions;
                   s1 = s\<lparr>c_detected_regions := take 5 sorted_regions\<rparr>
               in if sorted_regions \<noteq> [] then
                    (case c_mask s1 of
                       None \<Rightarrow> ([], s1\<lparr>c_log := c_log s1 @ [LogDetectFailed]\<rparr>)
                     | Some m \<Rightarrow>
                         (c_detected_regions s1,
                          s1\<lparr>c_mask := Some (fold mark_region (c_detected_regions s1)
                                               (np_zeros (snd (pil_size img)) (fst (pil_size img))))\<rparr>))
                  else (c_detected_regions s1, s1)))"

section \<open>The batch processor (\<open>watermark/batch_processor.py\<close>)\<close>

text \<open>
  The fields of \<open>BatchWatermarkProcessor\<close>; those whose names the interactive remover
  also uses carry the prefix \<open>b_\<close>. The callbacks handed to
  \<open>start_batch_processing\<close> are optional: \<open>callbacks\<close> says which are given, and every
  call of one is collected in a list.
\<close>

record batch =
  template_watermark_remover :: remover
  b_inpaint_radius :: int
  b_algorithm :: algo
  b_advanced_method :: string
  image_paths :: "string list"
  output_dir :: string
  processed_count :: nat
  success_count :: nat
  failed_paths :: "string list"
  b_is_processing :: bool
  should_stop :: bool
  max_workers :: nat

datatype batch_msg = MsgNoWatermark | MsgNoImages | MsgNoOutputDir | MsgBusy

datatype callback = OnError batch_msg | OnProgress nat nat | OnComplete nat nat "string list"

record callbacks =
  has_progress :: bool
  has_complete :: bool
  has_error :: bool

record start_result =
  started :: bool
  calls :: "callback list"
  launched :: bool
  state_after :: batch

definition set_parameters :: "int \<Rightarrow> string \<Rightarrow> string \<Rightarrow> batch \<Rightarrow> batch" where
  "set_parameters radius algorithm_name advanced b =
     b\<lparr>b_inpaint_radius := radius,
       b_algorithm := (if map upper_char algorithm_name = ''TELEA'' then INPAINT_TELEA
                       else if map upper_char algorithm_name = ''NS'' then INPAINT_NS
                       else INPAINT_TELEA),
       b_advanced_method := map lower_char advanced,
       template_watermark_remover :=
         set_advanced_method advanced
           (set_algorithm algorithm_name
              (set_inpaint_radius radius (template_watermark_remover b)))\<rparr>"

definition set_batch_images :: "string list \<Rightarrow> batch \<Rightarrow> batch" where
  "set_batch_images paths b =
     b\<lparr>image_paths := paths, processed_count := 0, success_count := 0, failed_paths := []\<rparr>"

definition refuse :: "callbacks \<Rightarrow> batch_msg \<Rightarrow> batch \<Rightarrow> start_result" where
  "refuse cbs msg b =
     \<lparr>started = False, calls = (if has_error cbs then [OnError msg] else []),
      launched = False, state_after = b\<rparr>"

text \<open>
  \<open>start_batch_processing\<close>: the checks in the order of the source. \<open>np.max\<close> of a
  template mask without elements raises. The last branch resets the counters and starts
  the thread.
\<close>

definition start_batch_processing :: "callbacks \<Rightarrow> batch \<Rightarrow> py_error + start_result" where
  "start_batch_processing cbs b =
     (case mask (template_watermark_remover b) of
        None \<Rightarrow> Inr (refuse cbs MsgNoWatermark b)
      | Some m \<Rightarrow>
          (case np_max m of
             None \<Rightarrow> Inl ValueError
           | Some mx \<Rightarrow>
               if mx = 0 then Inr (refuse cbs MsgNoWatermark b)
               else if image_paths b = [] then Inr (refuse cbs MsgNoImages b)
               else if output_dir b = [] then Inr (refuse cbs MsgNoOutputDir b)
               else if b_is_processing b then Inr (refuse cbs MsgBusy b)
               else Inr \<lparr>started = True, calls = [], launched = True,
                         state_after = b\<lparr>b_is_processing := True, should_stop := False,
                                           processed_count := 0, success_count := 0,
                                           failed_paths := []\<rparr>\<rparr>))"

text \<open>
  \<open>_process_single_image\<close>. \<open>process_item\<close> is its part up to the oracle call: the
  inpainted image, or \<open>None\<close> when reading, resizing or inpainting fails (every
  exception is caught and turned into \<open>False\<close>).
\<close>

definition process_item :: "env \<Rightarrow> batch \<Rightarrow> string \<Rightarrow> mask \<Rightarrow> image option" where
  "process_item ev b image_path template_mask =
     (case cv_imread ev image_path of
        Loaded img \<Rightarrow>
          (case shape img of (h, w) \<Rightarrow>
             (case cv_resize_nearest template_mask w h of
                None \<Rightarrow> None
              | Some mask_resized \<Rightarrow>
                  cv_inpaint ev img (cv_threshold mask_resized) (b_inpaint_radius b) (b_algorithm b)))
      | _ \<Rightarrow> None)"

text \<open>The arguments \<open>_process_single_image\<close> calls \<open>cv2.inpaint\<close> with, \<open>None\<close>
  when the call is not reached: the radius is the batch processor's own field.\<close>

definition item_request :: "env \<Rightarrow> batch \<Rightarrow> string \<Rightarrow> mask \<Rightarrow> (image \<times> mask \<times> int \<times> algo) option" where
  "item_request ev b image_path template_mask =
     (case cv_imread ev image_path of
        Loaded img \<Rightarrow>
          (case shape img of (h, w) \<Rightarrow>
             (case cv_resize_nearest template_mask w h of
                None \<Rightarrow> None
              | Some mask_resized \<Rightarrow>
                  Some (img, cv_threshold mask_resized, b_inpaint_radius b, b_algorithm b)))
      | _ \<Rightarrow> None)"








subsection \<open>The template mask as a shared array\<close>

text \<open>
  numpy arrays are objects: \<open>cv2.circle\<close> and \<open>cv2.line\<close> write into the array they
  are given, while \<open>clear_mask\<close>, \<open>undo_mask\<close>, \<open>redo_mask\<close>, \<open>load_image\<close> and
  \<open>continue_edit_result\<close> bind \<open>self.mask\<close> to a new array. The store maps an array
  identity to its content; \<open>live\<close> is the array bound to the \<open>mask\<close> field of the
  template remover, whose record holds the content of that array.
\<close>

record world =
  heap :: "nat \<Rightarrow> mask"
  live :: nat
  fresh :: nat
  tmpl :: remover

text \<open>Does the call bind \<open>self.mask\<close> to a new array?\<close>

fun rebinds :: "env \<Rightarrow> op \<Rightarrow> remover \<Rightarrow> bool" where
  "rebinds ev (LoadImage path) s = fst (load_image ev path s)"
| "rebinds ev ClearMask s = (image_cur s \<noteq> None)"
| "rebinds ev ContinueEditResult s = (result_image s \<noteq> None)"
| "rebinds ev UndoMask s = (case undo_mask s of Inr (True, s1) \<Rightarrow> True | _ \<Rightarrow> False)"
| "rebinds ev RedoMask s = (case redo_mask s of Inr (True, s1) \<Rightarrow> True | _ \<Rightarrow> False)"
| "rebinds ev (AddMaskRegion ps r) s =
     (case image_cur s of None \<Rightarrow> False
      | Some img \<Rightarrow> (case mask s of None \<Rightarrow> False | Some m \<Rightarrow> shape m \<noteq> shape img))"
| "rebinds ev (StartDraw p b) s =
     (case image_cur s of None \<Rightarrow> False
      | Some img \<Rightarrow> (case mask s of None \<Rightarrow> False | Some m \<Rightarrow> shape m \<noteq> shape img))"
| "rebinds ev (DrawLineOnMask rnd p q b) s =
     (case image_cur s of None \<Rightarrow> False
      | Some img \<Rightarrow> (case mask s of None \<Rightarrow> False | Some m \<Rightarrow> shape m \<noteq> shape img))"
| "rebinds ev other s = False"

text \<open>A call of the interface thread on the template remover. A call that raises is
  taken to leave the store as it was.\<close>

definition ui_step :: "env \<Rightarrow> op \<Rightarrow> world \<Rightarrow> world" where
  "ui_step ev c w =
     (case exec ev c (tmpl w) of
        Inl e \<Rightarrow> w
      | Inr t \<Rightarrow>
          (case mask t of
             None \<Rightarrow> w\<lparr>tmpl := t\<rparr>
           | Some content \<Rightarrow>
               if rebinds ev c (tmpl w)
               then w\<lparr>tmpl := t, live := fresh w, fresh := fresh w + 1,
                      heap := (heap w)(fresh w := content)\<rparr>
               else w\<lparr>tmpl := t, heap := (heap w)(live w := content)\<rparr>))"

text \<open>
  The batch after \<open>start_batch_processing\<close>, interleaved with the interface thread:
  \<open>Ui c\<close> is a call on the template remover, \<open>Work i\<close> the worker of entry \<open>i\<close>
  running \<open>_process_single_image\<close>. \<open>template_ref\<close> is the array the thread bound to
  \<open>template_mask\<close>. The result lists the image each worker handed to the save step.
\<close>

datatype action = Ui op | Work nat

fun workers :: "env \<Rightarrow> batch \<Rightarrow> nat \<Rightarrow> action list \<Rightarrow> world \<Rightarrow> (nat \<times> image option) list" where
  "workers ev b template_ref [] w = []"
| "workers ev b template_ref (Ui c # as) w = workers ev b template_ref as (ui_step ev c w)"
| "workers ev b template_ref (Work i # as) w =
     (i, process_item ev b (image_paths b ! i) (heap w template_ref))
       # workers ev b template_ref as w"

definition batch_outputs :: "env \<Rightarrow> batch \<Rightarrow> action list \<Rightarrow> (nat \<times> image option) list" where
  "batch_outputs ev b as =
     (case mask (template_watermark_remover b) of
        None \<Rightarrow> []
      | Some m \<Rightarrow>
          workers ev b 0 as
            \<lparr>heap = (\<lambda>a. m), live = 0, fresh = 1, tmpl = template_watermark_remover b\<rparr>)"

section \<open>Predicates used in the statements\<close>

text \<open>The cursor of the history is at its last snapshot and an image with its mask is
  loaded: the state between two strokes.\<close>

definition at_tip :: "remover \<Rightarrow> bool" where
  "at_tip s =
     (image_cur s \<noteq> None \<and> mask s \<noteq> None \<and> mask_history s \<noteq> [] \<and>
      history_index s = int (length (mask_history s)) - 1)"

text \<open>The template mask exists and has a marked pixel: the first two checks of
  \<open>start_batch_processing\<close> pass.\<close>

definition template_marked :: "batch \<Rightarrow> bool" where
  "template_marked b =
     (case mask (template_watermark_remover b) of
        None \<Rightarrow> False
      | Some m \<Rightarrow> (case np_max m of None \<Rightarrow> False | Some mx \<Rightarrow> 0 < mx))"

text \<open>The template mask is absent, or present without a marked pixel.\<close>

definition template_unmarked :: "batch \<Rightarrow> bool" where
  "template_unmarked b =
     (case mask (template_watermark_remover b) of
        None \<Rightarrow> True
      | Some m \<Rightarrow> np_max m = Some 0)"

text \<open>Strokes followed by \<open>n\<close> calls of \<open>undo()\<close>, and the mask a sequence of
  calls ends with when every call returned \<open>True\<close>.\<close>

definition undo_after :: "env \<Rightarrow> stroke list \<Rightarrow> nat \<Rightarrow> remover \<Rightarrow> py_error + bool \<times> remover" where
  "undo_after ev sts n s = bind_err (run ev (concat (map stroke_ops sts)) s) (undo_times n)"

definition result_mask :: "py_error + bool \<times> remover \<Rightarrow> mask option" where
  "result_mask r = (case r of Inl e \<Rightarrow> None | Inr (ok, s) \<Rightarrow> if ok then mask s else None)"

section \<open>Concrete instances\<close>

text \<open>
  A small instance of the external collaborators, for evaluating the model on concrete
  inputs. The rasterisers paint the pixels within the radius of the centre; the line
  paints its two end points with half its width. The inpainting blanks the marked
  pixels. On the one-row masks used below, with radius 1 and lines whose ends coincide,
  this is what OpenCV paints.
\<close>

definition paint_disc :: "mask \<Rightarrow> int \<times> int \<Rightarrow> int \<Rightarrow> mask" where
  "paint_disc m c r =
     map (\<lambda>(py, row).
            map (\<lambda>(px, v). if (int px - fst c)\<^sup>2 + (int py - snd c)\<^sup>2 \<le> r\<^sup>2 then 255 else v)
                (enumerate 0 row))
         (enumerate 0 m)"

definition blank_marked :: "image \<Rightarrow> mask \<Rightarrow> image" where
  "blank_marked img m = map2 (map2 (\<lambda>px v. if 0 < v then (0, 0, 0) else px)) img m"

definition demo_imread :: "string \<Rightarrow> read_result" where
  "demo_imread path =
     (if path = ''a.png'' then Loaded [[(10, 20, 30)]]
      else if path = ''t.png'' then Loaded [[(10, 20, 30), (40, 50, 60), (70, 80, 90)]]
      else if path = ''b.png'' then Loaded [[(1, 2, 3), (4, 5, 6), (7, 8, 9)]]
      else if path = ''d.png'' then Loaded [replicate 10 (10, 20, 30)]
      else if path = ''bad.png'' then Unreadable
      else Missing)"

definition demo_env :: env where
  "demo_env =
     \<lparr>cv_circle = (\<lambda>m c r. if r < 0 then None else Some (paint_disc m c r)),
      cv_line = (\<lambda>m p q t. if t \<le> 0 then None
                            else Some (paint_disc (paint_disc m p (t div 2)) q (t div 2))),
      cv_inpaint = (\<lambda>img m r a. if shape img = shape m then Some (blank_marked img m) else None),
      cv_imread = demo_imread,
      save_output = (\<lambda>dir path res. True),
      pil_resize_image = (\<lambda>a sz. None),
      pil_resize_mask = (\<lambda>a sz. None),
      cv_resize_area_image = (\<lambda>a sz. None),
      cv_resize_area_mask = (\<lambda>a sz. None),
      patchmatch_body = (\<lambda>preview a m sz. None),
      contour_boxes = (\<lambda>img. Some (map (\<lambda>x. (x, 0, 1, 1)) [0 ..< 7])),
      roi_std_dev = (\<lambda>img b. 0),
      roi_gradient_sum = (\<lambda>img b. 40 * real (fst b))\<rparr>"

text \<open>The same collaborators with an inpainting routine that always raises.\<close>

definition failing_env :: env where
  "failing_env = demo_env\<lparr>cv_inpaint := (\<lambda>img m r a. None)\<rparr>"

text \<open>The remover after loading the one-pixel image, and one stroke on it whose single
  motion draws a random value below \<open>0.2\<close>.\<close>

definition demo_loaded :: remover where
  "demo_loaded = snd (load_image demo_env ''a.png'' init_remover)"

definition demo_stroke :: stroke where
  "demo_stroke =
     \<lparr>canvas_size = (10, 10), first_point = (5, 5), brush = 2, motions = [((6, 5), 1 / 10)]\<rparr>"

text \<open>The state that stroke leaves: three snapshots for one stroke.\<close>

definition demo_drawn :: remover where
  "demo_drawn =
     \<lparr>image_cur = Some [[(10, 20, 30)]], original_image = Some [[(10, 20, 30)]],
      mask = Some [[255]], result_image = None, inpaint_radius = 3,
      algorithm = INPAINT_TELEA, advanced_method = ''none'', is_processing = False,
      display_width = 10, display_height = 10, scale_factor = 9,
      mask_history = [[[0]], [[255]], [[255]]], history_index = 2\<rparr>"

text \<open>That state after one and after two calls of \<open>undo()\<close>, and after a further
  stroke without a mid-stroke snapshot.\<close>

definition demo_undone1 :: remover where
  "demo_undone1 = demo_drawn\<lparr>history_index := 1\<rparr>"

definition demo_undone2 :: remover where
  "demo_undone2 = demo_drawn\<lparr>history_index := 0, mask := Some [[0]]\<rparr>"

definition demo_redrawn :: remover where
  "demo_redrawn = demo_drawn\<lparr>mask_history := [[[0]], [[255]]], history_index := 1\<rparr>"

definition quiet_stroke :: stroke where
  "quiet_stroke =
     \<lparr>canvas_size = (10, 10), first_point = (5, 5), brush = 2, motions = [((6, 5), 1 / 2)]\<rparr>"

text \<open>A batch whose template is the three-pixel image with its first two pixels
  marked, one source image and an output directory.\<close>

definition demo_template :: remover where
  "demo_template =
     (snd (load_image demo_env ''t.png'' init_remover))\<lparr>mask := Some [[255, 255, 0]]\<rparr>"

definition demo_batch :: batch where
  "demo_batch =
     \<lparr>template_watermark_remover = demo_template, b_inpaint_radius = 3,
      b_algorithm = INPAINT_TELEA, b_advanced_method = ''none'',
      image_paths = [''b.png'', ''bad.png''], output_dir = ''out'',
      processed_count = 0, success_count = 0, failed_paths = [],
      b_is_processing = False, should_stop = False, max_workers = 4\<rparr>"


text \<open>The batch after a successful start and after its run; every worker sees the
  template mask as it was at the start.\<close>

definition demo_started :: batch where
  "demo_started = demo_batch\<lparr>b_is_processing := True\<rparr>"



text \<open>The batch after \<open>set_parameters(50, 'TELEA', 'none')\<close>.\<close>

definition wide_batch :: batch where
  "wide_batch = set_parameters 50 ''TELEA'' ''none'' demo_batch"

definition all_callbacks :: callbacks where
  "all_callbacks = \<lparr>has_progress = True, has_complete = True, has_error = True\<rparr>"

definition demo_core :: core where
  "demo_core =
     \<lparr>c_original_image = Some [replicate 10 (10, 20, 30)], c_current_image = None,
      c_mask = Some [replicate 10 0], c_brush_size = 15, c_last_point = None,
      c_detected_regions = [], c_algorithm = ''ns'', c_processing = False,
      c_preview_quality = 80, c_log = []\<rparr>"

section \<open>The mask history\<close>

lemma save_mask_to_history_tip:
  "mask s = Some m \<Longrightarrow> history_index s = int (length (mask_history s)) - 1 \<Longrightarrow>
   save_mask_to_history s =
     s\<lparr>mask_history := mask_history s @ [m], history_index := int (length (mask_history s))\<rparr>"
  by (simp add: save_mask_to_history_def Let_def)

lemma set_display_size_frame:
  "set_display_size w h s = Inr s' \<Longrightarrow>
   mask s' = mask s \<and> mask_history s' = mask_history s \<and> history_index s' = history_index s \<and>
   image_cur s' = image_cur s \<and> inpaint_radius s' = inpaint_radius s"
  by (auto simp: set_display_size_def Let_def split: option.splits prod.splits if_splits)

lemma mask_self_update: "mask s = Some y \<Longrightarrow> \<exists>m'. s = s\<lparr>mask := Some m'\<rparr>"
  by (rule exI [of _ y]) simp

lemma start_draw_frame:
  "start_draw ev p b s = Inr s' \<Longrightarrow> mask s \<noteq> None \<Longrightarrow> \<exists>m'. s' = s\<lparr>mask := Some m'\<rparr>"
  by (auto simp: start_draw_def bind_err_def cv_call_def Let_def
           split: option.splits sum.splits if_splits intro: mask_self_update)

lemma draw_line_on_mask_push:
  "draw_line_on_mask ev rnd p q b s = Inr s' \<Longrightarrow> image_cur s \<noteq> None \<Longrightarrow> mask s \<noteq> None \<Longrightarrow>
   rnd < 2 / 10 \<Longrightarrow> \<exists>m'. s' = save_mask_to_history (s\<lparr>mask := Some m'\<rparr>)"
  by (auto simp: draw_line_on_mask_def bind_err_def cv_call_def Let_def
           split: option.splits sum.splits if_splits)

lemma draw_line_on_mask_keep:
  "draw_line_on_mask ev rnd p q b s = Inr s' \<Longrightarrow> mask s \<noteq> None \<Longrightarrow>
   \<not> rnd < 2 / 10 \<Longrightarrow> \<exists>m'. s' = s\<lparr>mask := Some m'\<rparr>"
  by (auto simp: draw_line_on_mask_def bind_err_def cv_call_def Let_def
           split: option.splits sum.splits if_splits intro: mask_self_update)

lemma run_append:
  "run ev (xs @ ys) s = (case run ev xs s of Inl e \<Rightarrow> Inl e | Inr s1 \<Rightarrow> run ev ys s1)"
  by (induction xs arbitrary: s) (auto split: sum.splits)

lemma motion_ops_history:
  "run ev (motion_ops sz b lp ms) s = Inr s' \<Longrightarrow> at_tip s \<Longrightarrow>
   at_tip s' \<and> (\<exists>ext. mask_history s' = mask_history s @ ext \<and>
                     length ext = length (filter (\<lambda>m. snd m < 2 / 10) ms))"
proof (induction ms arbitrary: s lp)
  case Nil
  then show ?case by simp
next
  case (Cons a ms)
  obtain p rnd where a: "a = (p, rnd)" by (cases a)
  from Cons.prems(1) a obtain s1 s2 where
    s1: "set_display_size (fst sz) (snd sz) s = Inr s1" and
    s2: "draw_line_on_mask ev rnd lp p b s1 = Inr s2" and
    rest: "run ev (motion_ops sz b p ms) s2 = Inr s'"
    by (auto split: sum.splits)
  from set_display_size_frame [OF s1] Cons.prems(2) have tip1: "at_tip s1"
    and h1: "mask_history s1 = mask_history s"
    by (simp_all add: at_tip_def)
  show ?case
  proof (cases "rnd < 2 / 10")
    case True
    from draw_line_on_mask_push [OF s2 _ _ True] tip1 obtain m' where
      "s2 = save_mask_to_history (s1\<lparr>mask := Some m'\<rparr>)"
      by (auto simp: at_tip_def)
    with tip1 have s2eq: "s2 = s1\<lparr>mask := Some m', mask_history := mask_history s1 @ [m'],
                               history_index := int (length (mask_history s1))\<rparr>"
      by (simp add: save_mask_to_history_tip at_tip_def)
    then have tip2: "at_tip s2" using tip1 by (simp add: at_tip_def)
    from Cons.IH [OF rest tip2] obtain ext where
      "at_tip s'" "mask_history s' = mask_history s2 @ ext"
      "length ext = length (filter (\<lambda>m. snd m < 2 / 10) ms)" by blast
    then show ?thesis using s2eq h1 a True by simp
  next
    case False
    from draw_line_on_mask_keep [OF s2 _ False] tip1 obtain m' where
      s2eq: "s2 = s1\<lparr>mask := Some m'\<rparr>"
      by (auto simp: at_tip_def)
    then have tip2: "at_tip s2" using tip1 by (simp add: at_tip_def)
    from Cons.IH [OF rest tip2] obtain ext where
      "at_tip s'" "mask_history s' = mask_history s2 @ ext"
      "length ext = length (filter (\<lambda>m. snd m < 2 / 10) ms)" by blast
    then show ?thesis using s2eq h1 a False by simp
  qed
qed


lemma stroke_ops_history:
  assumes "run ev (stroke_ops st) s = Inr s'" and "at_tip s"
  shows "at_tip s' \<and> mask s' = Some (last (mask_history s')) \<and>
         (\<exists>ext. mask_history s' = mask_history s @ ext \<and> length ext = 1 + mid_snapshots st)"
proof -
  from assms(1) obtain s1 s2 s3 where
    s1: "set_display_size (fst (canvas_size st)) (snd (canvas_size st)) s = Inr s1" and
    s2: "start_draw ev (first_point st) (brush st) s1 = Inr s2" and
    s3: "run ev (motion_ops (canvas_size st) (brush st) (first_point st) (motions st)) s2 = Inr s3" and
    s': "s' = save_mask_to_history s3"
    by (auto simp: stroke_ops_def run_append split: sum.splits)
  from set_display_size_frame [OF s1] assms(2) have tip1: "at_tip s1"
    and h1: "mask_history s1 = mask_history s"
    by (simp_all add: at_tip_def)
  from start_draw_frame [OF s2] tip1 obtain m' where "s2 = s1\<lparr>mask := Some m'\<rparr>"
    by (auto simp: at_tip_def)
  with tip1 h1 have tip2: "at_tip s2" and h2: "mask_history s2 = mask_history s"
    by (simp_all add: at_tip_def)
  from motion_ops_history [OF s3 tip2] h2 obtain ext where
    tip3: "at_tip s3" and h3: "mask_history s3 = mask_history s @ ext" and
    len: "length ext = mid_snapshots st"
    by (auto simp: mid_snapshots_def)
  from tip3 obtain m where m: "mask s3 = Some m" by (auto simp: at_tip_def)
  with tip3 s' have eq: "s' = s3\<lparr>mask_history := mask_history s3 @ [m],
                                   history_index := int (length (mask_history s3))\<rparr>"
    by (simp add: save_mask_to_history_tip at_tip_def)
  have "at_tip s'" using eq tip3 by (simp add: at_tip_def)
  moreover have "mask s' = Some (last (mask_history s'))" using eq m by simp
  moreover have "mask_history s' = mask_history s @ (ext @ [m])" using eq h3 by simp
  ultimately show ?thesis using len by (metis length_append_singleton plus_1_eq_Suc)
qed

lemma strokes_history:
  "run ev (concat (map stroke_ops sts)) s = Inr s' \<Longrightarrow> at_tip s \<Longrightarrow>
   mask s = Some (last (mask_history s)) \<Longrightarrow>
   at_tip s' \<and> mask s' = Some (last (mask_history s')) \<and>
   (\<exists>ext. mask_history s' = mask_history s @ ext \<and> length ext = snapshots sts)"
proof (induction sts arbitrary: s)
  case Nil
  then show ?case by (simp add: snapshots_def)
next
  case (Cons st sts)
  from Cons.prems(1) obtain s1 where
    s1: "run ev (stroke_ops st) s = Inr s1" and
    rest: "run ev (concat (map stroke_ops sts)) s1 = Inr s'"
    by (auto simp: run_append split: sum.splits)
  from stroke_ops_history [OF s1 Cons.prems(2)] obtain ext1 where
    tip1: "at_tip s1" and m1: "mask s1 = Some (last (mask_history s1))" and
    h1: "mask_history s1 = mask_history s @ ext1" and l1: "length ext1 = 1 + mid_snapshots st"
    by blast
  from Cons.IH [OF rest tip1 m1] obtain ext2 where
    tip: "at_tip s'" and m: "mask s' = Some (last (mask_history s'))" and
    h2: "mask_history s' = mask_history s1 @ ext2" and l2: "length ext2 = snapshots sts"
    by blast
  have "mask_history s' = mask_history s @ (ext1 @ ext2)" using h1 h2 by simp
  moreover have "length (ext1 @ ext2) = snapshots (st # sts)"
    using l1 l2 by (simp add: snapshots_def)
  ultimately show ?case using tip m by blast
qed

lemma undo_times_steps:
  "history_index s = int n \<Longrightarrow> n < length (mask_history s) \<Longrightarrow> k \<le> n \<Longrightarrow>
   \<exists>s2. undo_times k s = Inr (True, s2) \<and> mask_history s2 = mask_history s \<and>
        history_index s2 = int (n - k) \<and>
        mask s2 = (if k = 0 then mask s else Some (mask_history s ! (n - k)))"
proof (induction k arbitrary: s n)
  case 0
  then show ?case by simp
next
  case (Suc k)
  from Suc.prems obtain n' where n': "n = Suc n'" by (cases n) auto
  let ?s1 = "s\<lparr>history_index := int n', mask := Some (mask_history s ! n')\<rparr>"
  have u: "undo_mask s = Inr (True, ?s1)"
    using Suc.prems n' by (auto simp: undo_mask_def py_index_def bind_err_def Let_def)
  have "history_index ?s1 = int n'" "n' < length (mask_history ?s1)" "k \<le> n'"
    using Suc.prems n' by auto
  from Suc.IH [OF this] obtain s2 where
    "undo_times k ?s1 = Inr (True, s2)" "mask_history s2 = mask_history s"
    "history_index s2 = int (n' - k)"
    "mask s2 = (if k = 0 then mask ?s1 else Some (mask_history s ! (n' - k)))"
    by auto
  then show ?case using u n' by auto
qed

lemma redo_times_steps:
  "history_index s = int n \<Longrightarrow> n + k < length (mask_history s) \<Longrightarrow>
   \<exists>s2. redo_times k s = Inr (True, s2) \<and> mask_history s2 = mask_history s \<and>
        history_index s2 = int (n + k) \<and>
        mask s2 = (if k = 0 then mask s else Some (mask_history s ! (n + k)))"
proof (induction k arbitrary: s n)
  case 0
  then show ?case by simp
next
  case (Suc k)
  let ?s1 = "s\<lparr>history_index := int (Suc n), mask := Some (mask_history s ! Suc n)\<rparr>"
  have u: "redo_mask s = Inr (True, ?s1)"
    using Suc.prems by (auto simp: redo_mask_def py_index_def bind_err_def Let_def nat_add_distrib)
  have "history_index ?s1 = int (Suc n)" "Suc n + k < length (mask_history ?s1)"
    using Suc.prems by auto
  from Suc.IH [OF this] obtain s2 where
    "redo_times k ?s1 = Inr (True, s2)" "mask_history s2 = mask_history s"
    "history_index s2 = int (Suc n + k)"
    "mask s2 = (if k = 0 then mask ?s1 else Some (mask_history s ! (Suc n + k)))"
    by auto
  then show ?case using u by auto
qed

lemma load_image_loaded:
  "cv_imread ev path = Loaded img \<Longrightarrow>
   load_image ev path s =
     (True, s\<lparr>original_image := Some img, image_cur := Some img,
              mask := Some (np_zeros (fst (shape img)) (snd (shape img))), result_image := None,
              mask_history := [np_zeros (fst (shape img)) (snd (shape img))],
              history_index := 0\<rparr>)"
  by (simp add: load_image_def save_mask_to_history_def Let_def py_slice_to_def split: prod.splits)

text \<open>
  Claim C3, as amended. Let \<open>K\<close> be the number of snapshots the strokes push after
  loading: one per stroke, and one more for every \<open>draw_line_on_mask\<close> call whose
  random value is below \<open>0.2\<close>. Then \<open>K\<close> calls of \<open>undo()\<close> all succeed and restore
  the all-zero mask of load time, and \<open>K\<close> calls of \<open>redo()\<close> after them all succeed
  and restore the mask as it was after the last stroke. \<open>K\<close> is the number of strokes
  exactly when no call draws below \<open>0.2\<close>.
\<close>

theorem undo_redo_inverse:
  assumes rd: "cv_imread ev path = Loaded img"
    and run: "run ev (concat (map stroke_ops sts)) (snd (load_image ev path s)) = Inr s1"
  shows "(\<exists>s2 s3. undo_times (snapshots sts) s1 = Inr (True, s2) \<and>
           mask s2 = Some (np_zeros (fst (shape img)) (snd (shape img))) \<and>
           redo_times (snapshots sts) s2 = Inr (True, s3) \<and>
           mask s3 = mask s1) \<and>
         (snapshots sts = length sts \<longleftrightarrow> (\<forall>st \<in> set sts. mid_snapshots st = 0))"
proof -
  let ?z = "np_zeros (fst (shape img)) (snd (shape img))"
  let ?s0 = "snd (load_image ev path s)"
  let ?K = "snapshots sts"
  have s0: "at_tip ?s0" "mask ?s0 = Some (last (mask_history ?s0))" "mask_history ?s0 = [?z]"
    by (simp_all add: load_image_loaded [OF rd] at_tip_def)
  from strokes_history [OF run s0(1) s0(2)] s0(3) obtain ext where
    tip: "at_tip s1" and m1: "mask s1 = Some (last (mask_history s1))" and
    h: "mask_history s1 = ?z # ext" and len: "length ext = ?K"
    by auto
  have idx: "history_index s1 = int ?K" using tip h len by (simp add: at_tip_def)
  have lt: "?K < length (mask_history s1)" using h len by simp
  from undo_times_steps [OF idx lt order_refl] obtain s2 where
    u: "undo_times ?K s1 = Inr (True, s2)" and h2: "mask_history s2 = mask_history s1" and
    i2: "history_index s2 = int 0" and
    m2: "mask s2 = (if ?K = 0 then mask s1 else Some (mask_history s1 ! 0))"
    by auto
  have z: "mask s2 = Some ?z"
  proof (cases "?K = 0")
    case True
    then have "ext = []" using len by simp
    then show ?thesis using m2 True m1 h by simp
  next
    case False
    then show ?thesis using m2 h by simp
  qed
  have "0 + ?K < length (mask_history s2)" using h2 lt by simp
  from redo_times_steps [OF i2 this] obtain s3 where
    r: "redo_times ?K s2 = Inr (True, s3)" and
    m3: "mask s3 = (if ?K = 0 then mask s2 else Some (mask_history s2 ! (0 + ?K)))"
    by auto
  have "mask s3 = mask s1"
  proof (cases "?K = 0")
    case True
    then have "ext = []" using len by simp
    then show ?thesis using m3 True z m1 h by simp
  next
    case False
    have "mask_history s1 \<noteq> []" "length (mask_history s1) - 1 = ?K"
      using h len by simp_all
    then have "last (mask_history s1) = mask_history s1 ! ?K"
      by (metis last_conv_nth)
    then show ?thesis using m3 False h2 m1 by simp
  qed
  moreover have "snapshots sts = length sts \<longleftrightarrow> (\<forall>st \<in> set sts. mid_snapshots st = 0)"
    by (auto simp: snapshots_def)
  ultimately show ?thesis using u z r by blast
qed

lemma demo_run: "run demo_env (stroke_ops demo_stroke) demo_loaded = Inr demo_drawn"
  by code_simp

lemma demo_read: "cv_imread demo_env ''a.png'' = Loaded [[(10, 20, 30)]]"
  by (simp add: demo_env_def demo_imread_def)

text \<open>The amended law at the one-pixel image: one stroke with one mid-stroke
  snapshot pushes two snapshots, two undos reach the zero mask, two redos the final
  one.\<close>

theorem undo_redo_inverse_witness:
  "snapshots [demo_stroke] = 2 \<and>
   (\<exists>s2 s3. undo_times (snapshots [demo_stroke]) demo_drawn = Inr (True, s2) \<and>
      mask s2 = Some [[0]] \<and>
      redo_times (snapshots [demo_stroke]) s2 = Inr (True, s3) \<and> mask s3 = Some [[255]])"
proof -
  have "run demo_env (concat (map stroke_ops [demo_stroke]))
          (snd (load_image demo_env ''a.png'' init_remover)) = Inr demo_drawn"
    using demo_run by (simp add: demo_loaded_def)
  from undo_redo_inverse [OF demo_read this]
  have "\<exists>s2 s3. undo_times (snapshots [demo_stroke]) demo_drawn = Inr (True, s2) \<and>
      mask s2 = Some [[0]] \<and>
      redo_times (snapshots [demo_stroke]) s2 = Inr (True, s3) \<and> mask s3 = Some [[255]]"
    by (simp add: shape_def np_zeros_def demo_drawn_def)
  moreover have "snapshots [demo_stroke] = 2"
    by (simp add: snapshots_def mid_snapshots_def demo_stroke_def)
  ultimately show ?thesis by blast
qed

text \<open>
  Claim C3 as stated fails: after one stroke whose motion draws a random value below
  \<open>0.2\<close>, one call of \<open>undo()\<close> succeeds and leaves the painted mask, not the
  all-zero mask of load time.
\<close>

theorem undo_n_times_counterexample:
  "result_mask (undo_after demo_env [demo_stroke] (length [demo_stroke]) demo_loaded) = Some [[255]] \<and>
   mask demo_loaded = Some [[0]]"
  by code_simp

section \<open>Truncation of the history\<close>

lemma save_mask_to_history_at_end:
  "mask s \<noteq> None \<Longrightarrow>
   history_index (save_mask_to_history s) = int (length (mask_history (save_mask_to_history s))) - 1"
  by (auto simp: save_mask_to_history_def Let_def)

lemma redo_mask_at_end:
  "history_index s = int (length (mask_history s)) - 1 \<Longrightarrow> redo_mask s = Inr (False, s)"
  by (simp add: redo_mask_def)

lemma undo_mask_keeps_mask:
  "undo_mask s = Inr (r, s') \<Longrightarrow> mask s \<noteq> None \<Longrightarrow> mask s' \<noteq> None"
  by (auto simp: undo_mask_def bind_err_def Let_def split: if_splits sum.splits)

lemma draw_line_on_mask_keeps_mask:
  "draw_line_on_mask ev rnd p q b s = Inr s' \<Longrightarrow> mask s \<noteq> None \<Longrightarrow> mask s' \<noteq> None"
  by (auto simp: draw_line_on_mask_def bind_err_def cv_call_def Let_def save_mask_to_history_def
           split: option.splits sum.splits if_splits)

lemma motion_ops_keep_mask:
  "run ev (motion_ops sz b lp ms) s = Inr s' \<Longrightarrow> mask s \<noteq> None \<Longrightarrow> mask s' \<noteq> None"
proof (induction ms arbitrary: s lp)
  case Nil
  then show ?case by simp
next
  case (Cons a ms)
  obtain p rnd where a: "a = (p, rnd)" by (cases a)
  from Cons.prems(1) a obtain s1 s2 where
    s1: "set_display_size (fst sz) (snd sz) s = Inr s1" and
    s2: "draw_line_on_mask ev rnd lp p b s1 = Inr s2" and
    rest: "run ev (motion_ops sz b p ms) s2 = Inr s'"
    by (auto split: sum.splits)
  from set_display_size_frame [OF s1] Cons.prems(2) have "mask s1 \<noteq> None" by simp
  from draw_line_on_mask_keeps_mask [OF s2 this] have "mask s2 \<noteq> None" .
  from Cons.IH [OF rest this] show ?case .
qed

lemma stroke_ops_end_at_tip:
  assumes "run ev (stroke_ops st) s = Inr s'" and "mask s \<noteq> None"
  shows "history_index s' = int (length (mask_history s')) - 1"
proof -
  from assms(1) obtain s1 s2 s3 where
    s1: "set_display_size (fst (canvas_size st)) (snd (canvas_size st)) s = Inr s1" and
    s2: "start_draw ev (first_point st) (brush st) s1 = Inr s2" and
    s3: "run ev (motion_ops (canvas_size st) (brush st) (first_point st) (motions st)) s2 = Inr s3" and
    s': "s' = save_mask_to_history s3"
    by (auto simp: stroke_ops_def run_append split: sum.splits)
  from set_display_size_frame [OF s1] assms(2) have m1: "mask s1 \<noteq> None" by simp
  from start_draw_frame [OF s2 m1] have "mask s2 \<noteq> None" by auto
  from motion_ops_keep_mask [OF s3 this] have "mask s3 \<noteq> None" .
  then show ?thesis unfolding s' by (rule save_mask_to_history_at_end)
qed

text \<open>
  Claim C4. A snapshot pushed while the cursor is before the end of the history keeps
  the snapshots up to the cursor, drops the later ones and appends the new one, and the
  cursor is at the end again, so that \<open>redo()\<close> returns \<open>False\<close>. In particular, after
  two calls of \<open>undo()\<close>, a new stroke and its end-of-stroke snapshot, \<open>redo()\<close> returns
  \<open>False\<close> and changes nothing.
\<close>

theorem snapshot_discards_future:
  assumes "mask s = Some m"
  shows "(- 1 \<le> history_index s \<and> history_index s < int (length (mask_history s)) - 1 \<longrightarrow>
            mask_history (save_mask_to_history s) =
              take (nat (history_index s + 1)) (mask_history s) @ [m] \<and>
            history_index (save_mask_to_history s) = history_index s + 1 \<and>
            redo_mask (save_mask_to_history s) = Inr (False, save_mask_to_history s)) \<and>
         (undo_mask s = Inr (r1, s1) \<and> undo_mask s1 = Inr (r2, s2) \<and>
          run ev (stroke_ops st) s2 = Inr s3 \<longrightarrow> redo_mask s3 = Inr (False, s3))"
proof (intro conjI impI)
  assume a: "- 1 \<le> history_index s \<and> history_index s < int (length (mask_history s)) - 1"
  show h: "mask_history (save_mask_to_history s) =
             take (nat (history_index s + 1)) (mask_history s) @ [m]"
    using a assms by (simp add: save_mask_to_history_def Let_def py_slice_to_def)
  show "history_index (save_mask_to_history s) = history_index s + 1"
    using a assms by (auto simp: save_mask_to_history_def Let_def py_slice_to_def min_def)
  show "redo_mask (save_mask_to_history s) = Inr (False, save_mask_to_history s)"
    using assms by (intro redo_mask_at_end save_mask_to_history_at_end) simp
next
  assume b: "undo_mask s = Inr (r1, s1) \<and> undo_mask s1 = Inr (r2, s2) \<and>
             run ev (stroke_ops st) s2 = Inr s3"
  from b assms have "mask s1 \<noteq> None" by (auto dest: undo_mask_keeps_mask)
  with b have "mask s2 \<noteq> None" by (auto dest: undo_mask_keeps_mask)
  with b have "history_index s3 = int (length (mask_history s3)) - 1"
    by (auto dest: stroke_ops_end_at_tip)
  then show "redo_mask s3 = Inr (False, s3)" by (rule redo_mask_at_end)
qed

lemma demo_rerun: "run demo_env (stroke_ops quiet_stroke) demo_undone2 = Inr demo_redrawn"
  by code_simp

theorem snapshot_discards_future_witness:
  "mask demo_undone1 = Some [[255]] \<and>
   - 1 \<le> history_index demo_undone1 \<and>
   history_index demo_undone1 < int (length (mask_history demo_undone1)) - 1 \<and>
   mask_history (save_mask_to_history demo_undone1) = [[[0]], [[255]], [[255]]] \<and>
   history_index (save_mask_to_history demo_undone1) = 2 \<and>
   undo_mask demo_drawn = Inr (True, demo_undone1) \<and>
   undo_mask demo_undone1 = Inr (True, demo_undone2) \<and>
   run demo_env (stroke_ops quiet_stroke) demo_undone2 = Inr demo_redrawn \<and>
   redo_mask demo_redrawn = Inr (False, demo_redrawn)"
proof -
  have m: "mask demo_undone1 = Some [[255]]"
    by (simp add: demo_undone1_def demo_drawn_def)
  have m0: "mask demo_drawn = Some [[255]]"
    by (simp add: demo_drawn_def)
  have i: "- 1 \<le> history_index demo_undone1 \<and>
           history_index demo_undone1 < int (length (mask_history demo_undone1)) - 1"
    by (simp add: demo_undone1_def demo_drawn_def)
  have u1: "undo_mask demo_drawn = Inr (True, demo_undone1)"
    by (simp add: undo_mask_def demo_undone1_def demo_drawn_def py_index_def bind_err_def)
  have u2: "undo_mask demo_undone1 = Inr (True, demo_undone2)"
    by (simp add: undo_mask_def demo_undone1_def demo_undone2_def demo_drawn_def py_index_def
                  bind_err_def)
  from snapshot_discards_future [where s = demo_undone1 and m = "[[255]]", OF m] i
  have a: "mask_history (save_mask_to_history demo_undone1) = [[[0]], [[255]], [[255]]] \<and>
           history_index (save_mask_to_history demo_undone1) = 2"
    by (simp add: demo_undone1_def demo_drawn_def)
  from snapshot_discards_future [where s = demo_drawn and m = "[[255]]" and ?r1.0 = True
      and ?s1.0 = demo_undone1 and ?r2.0 = True and ?s2.0 = demo_undone2 and ev = demo_env
      and st = quiet_stroke and ?s3.0 = demo_redrawn, OF m0]
    u1 u2 demo_rerun
  have "redo_mask demo_redrawn = Inr (False, demo_redrawn)" by blast
  with m i a u1 u2 demo_rerun show ?thesis by blast
qed

section \<open>Canvas coordinates\<close>

lemma canvas_to_image_coords_clamped:
  assumes "image_cur s = Some img" and "shape img = (h, w)" and "0 < w" and "0 < h"
    and "scale_factor s \<noteq> 0"
  shows "\<exists>x y. canvas_to_image_coords s (px, py) = Inr (x, y) \<and>
               0 \<le> x \<and> x \<le> int w - 1 \<and> 0 \<le> y \<and> y \<le> int h - 1"
  using assms by (auto simp: canvas_to_image_coords_def Let_def min_less_iff_disj)

lemma min_scaled_nonzero: "0 < (a::real) \<Longrightarrow> 0 < b \<Longrightarrow> min a b * (9 / 10) \<noteq> 0"
  by (auto simp: min_def)

lemma set_display_size_scale:
  assumes "image_cur s = Some img" and "shape img = (h, w)" and "0 < w" and "0 < h"
    and "0 < dw" and "0 < dh"
  shows "\<exists>s'. set_display_size dw dh s = Inr s' \<and> image_cur s' = Some img \<and> scale_factor s' \<noteq> 0"
proof -
  let ?f = "min (real_of_int dw / real w) (real_of_int dh / real h) * (9 / 10)"
  have "0 < real_of_int dw / real w" "0 < real_of_int dh / real h"
    using assms by simp_all
  then have "?f \<noteq> 0" by (rule min_scaled_nonzero)
  then show ?thesis using assms(1-4) by (simp add: set_display_size_def Let_def)
qed

text \<open>
  Claim C7. With an image of \<open>h\<close> rows and \<open>w\<close> columns loaded, the conversion of any
  canvas point returns a point of \<open>[0, w - 1] x [0, h - 1]\<close>: for every scale factor
  other than zero, and so after \<open>set_display_size\<close> was called with a surface of
  positive width and height.
\<close>

theorem canvas_to_image_coords_within_image:
  assumes "image_cur s = Some img" and "shape img = (h, w)" and "0 < w" and "0 < h"
  shows "(scale_factor s \<noteq> 0 \<longrightarrow>
            (\<exists>x y. canvas_to_image_coords s (px, py) = Inr (x, y) \<and>
                   0 \<le> x \<and> x \<le> int w - 1 \<and> 0 \<le> y \<and> y \<le> int h - 1)) \<and>
         (0 < dw \<and> 0 < dh \<longrightarrow>
            (\<exists>s' x y. set_display_size dw dh s = Inr s' \<and>
                   canvas_to_image_coords s' (px, py) = Inr (x, y) \<and>
                   0 \<le> x \<and> x \<le> int w - 1 \<and> 0 \<le> y \<and> y \<le> int h - 1))"
proof (intro conjI impI)
  assume "scale_factor s \<noteq> 0"
  with assms show "\<exists>x y. canvas_to_image_coords s (px, py) = Inr (x, y) \<and>
                   0 \<le> x \<and> x \<le> int w - 1 \<and> 0 \<le> y \<and> y \<le> int h - 1"
    by (rule canvas_to_image_coords_clamped)
next
  assume d: "0 < dw \<and> 0 < dh"
  with set_display_size_scale [OF assms, of dw dh] obtain s' where
    s': "set_display_size dw dh s = Inr s'" "image_cur s' = Some img" "scale_factor s' \<noteq> 0"
    by blast
  from canvas_to_image_coords_clamped [OF s'(2) assms(2,3,4) s'(3), of px py] s'(1)
  show "\<exists>s' x y. set_display_size dw dh s = Inr s' \<and>
                   canvas_to_image_coords s' (px, py) = Inr (x, y) \<and>
                   0 \<le> x \<and> x \<le> int w - 1 \<and> 0 \<le> y \<and> y \<le> int h - 1"
    by blast
qed

lemma demo_template_eq:
  "demo_template =
     \<lparr>image_cur = Some [[(10, 20, 30), (40, 50, 60), (70, 80, 90)]],
      original_image = Some [[(10, 20, 30), (40, 50, 60), (70, 80, 90)]],
      mask = Some [[255, 255, 0]], result_image = None, inpaint_radius = 3,
      algorithm = INPAINT_TELEA, advanced_method = ''none'', is_processing = False,
      display_width = 0, display_height = 0, scale_factor = 1,
      mask_history = [[[0, 0, 0]]], history_index = 0\<rparr>"
  by (simp add: demo_template_def load_image_def demo_env_def demo_imread_def shape_def
                init_remover_def save_mask_to_history_def np_zeros_def numeral_3_eq_3)

theorem canvas_to_image_coords_within_image_witness:
  "image_cur demo_template = Some [[(10, 20, 30), (40, 50, 60), (70, 80, 90)]] \<and>
   shape [[(10::nat, 20::nat, 30::nat), (40, 50, 60), (70, 80, 90)]] = (1, 3) \<and>
   scale_factor demo_template \<noteq> 0 \<and>
   canvas_to_image_coords demo_template (500, - 3) = Inr (2, 0) \<and>
   (\<exists>s' x y. set_display_size 10 10 demo_template = Inr s' \<and>
        canvas_to_image_coords s' (500, - 3) = Inr (x, y) \<and>
        0 \<le> x \<and> x \<le> 2 \<and> 0 \<le> y \<and> y \<le> 0)"
proof -
  have i: "image_cur demo_template = Some [[(10, 20, 30), (40, 50, 60), (70, 80, 90)]]"
    by (simp add: demo_template_eq)
  have sh: "shape [[(10::nat, 20::nat, 30::nat), (40, 50, 60), (70, 80, 90)]] = (1, 3)"
    by (simp add: shape_def)
  have sc: "scale_factor demo_template \<noteq> 0"
    by (simp add: demo_template_eq)
  have c: "canvas_to_image_coords demo_template (500, - 3) = Inr (2, 0)"
    by (simp add: demo_template_eq canvas_to_image_coords_def shape_def py_int_def Let_def)
  from canvas_to_image_coords_within_image [OF i sh, of 500 "- 3" 10 10]
  have "\<exists>s' x y. set_display_size 10 10 demo_template = Inr s' \<and>
        canvas_to_image_coords s' (500, - 3) = Inr (x, y) \<and>
        0 \<le> x \<and> x \<le> 2 \<and> 0 \<le> y \<and> y \<le> 0"
    by simp
  with i sh sc c show ?thesis by blast
qed

section \<open>The inpaint radius\<close>

lemma start_draw_radius:
  "start_draw ev p b s = Inr s' \<Longrightarrow> inpaint_radius s' = inpaint_radius s"
  by (auto simp: start_draw_def bind_err_def cv_call_def Let_def
           split: option.splits sum.splits if_splits)

lemma add_mask_region_radius:
  "add_mask_region ev ps r s = Inr s' \<Longrightarrow> inpaint_radius s' = inpaint_radius s"
  by (auto simp: add_mask_region_def bind_err_def Let_def split: option.splits sum.splits)

lemma draw_line_on_mask_radius:
  "draw_line_on_mask ev rnd p q b s = Inr s' \<Longrightarrow> inpaint_radius s' = inpaint_radius s"
  by (auto simp: draw_line_on_mask_def bind_err_def cv_call_def Let_def save_mask_to_history_def
           split: option.splits sum.splits if_splits)

lemma load_image_radius: "inpaint_radius (snd (load_image ev path s)) = inpaint_radius s"
  by (simp add: load_image_def save_mask_to_history_def Let_def split: read_result.splits prod.splits)

lemma remove_watermark_radius: "inpaint_radius (snd (remove_watermark ev s)) = inpaint_radius s"
  by (simp add: remove_watermark_def split: option.splits prod.splits)

lemma continue_edit_result_radius: "inpaint_radius (snd (continue_edit_result s)) = inpaint_radius s"
  by (simp add: continue_edit_result_def save_mask_to_history_def Let_def split: option.splits prod.splits)

lemma undo_mask_radius: "undo_mask s = Inr r \<Longrightarrow> inpaint_radius (snd r) = inpaint_radius s"
  by (auto simp: undo_mask_def bind_err_def Let_def split: if_splits sum.splits)

lemma redo_mask_radius: "redo_mask s = Inr r \<Longrightarrow> inpaint_radius (snd r) = inpaint_radius s"
  by (auto simp: redo_mask_def bind_err_def Let_def split: if_splits sum.splits)

lemma exec_radius_range:
  assumes "exec ev c s = Inr s'" and "1 \<le> inpaint_radius s \<and> inpaint_radius s \<le> 20"
  shows "1 \<le> inpaint_radius s' \<and> inpaint_radius s' \<le> 20"
proof (cases c)
  case (LoadImage path)
  with assms show ?thesis by (auto simp: load_image_radius)
next
  case (SetAlgorithm name)
  with assms show ?thesis by (auto simp: set_algorithm_def)
next
  case (SetInpaintRadius r)
  with assms show ?thesis by (auto simp: set_inpaint_radius_def)
next
  case (SetAdvancedMethod m)
  with assms show ?thesis by (auto simp: set_advanced_method_def)
next
  case (SetDisplaySize w h)
  with assms show ?thesis by (auto dest: set_display_size_frame)
next
  case (AddMaskRegion ps r)
  with assms show ?thesis by (auto dest: add_mask_region_radius)
next
  case (StartDraw p b)
  with assms show ?thesis by (auto dest: start_draw_radius)
next
  case (DrawLineOnMask rnd p q b)
  with assms show ?thesis by (auto dest: draw_line_on_mask_radius)
next
  case ClearMask
  with assms show ?thesis by (auto simp: clear_mask_def split: option.splits prod.splits)
next
  case RemoveWatermark
  with assms show ?thesis by (auto simp: remove_watermark_radius)
next
  case ContinueEditResult
  with assms show ?thesis by (auto simp: continue_edit_result_radius)
next
  case SaveMaskToHistory
  with assms show ?thesis by (auto simp: save_mask_to_history_def Let_def split: option.splits)
next
  case UndoMask
  with assms show ?thesis by (auto simp: bind_err_def dest: undo_mask_radius split: sum.splits)
next
  case RedoMask
  with assms show ?thesis by (auto simp: bind_err_def dest: redo_mask_radius split: sum.splits)
qed

lemma run_radius_range:
  "run ev cs s = Inr s' \<Longrightarrow> 1 \<le> inpaint_radius s \<and> inpaint_radius s \<le> 20 \<Longrightarrow>
   1 \<le> inpaint_radius s' \<and> inpaint_radius s' \<le> 20"
proof (induction cs arbitrary: s)
  case Nil
  then show ?case by simp
next
  case (Cons c cs)
  from Cons.prems(1) obtain s1 where s1: "exec ev c s = Inr s1" and r: "run ev cs s1 = Inr s'"
    by (auto split: sum.splits)
  from exec_radius_range [OF s1 Cons.prems(2)] Cons.IH [OF r] show ?case by blast
qed

lemma inpaint_request_radius:
  "inpaint_request s = Some (img, m, rad, alg) \<Longrightarrow> rad = inpaint_radius s"
  by (auto simp: inpaint_request_def Let_def split: option.splits prod.splits if_splits)

text \<open>
  Claim C10, as amended. \<open>set_inpaint_radius r\<close> stores 1 for \<open>r\<close> below 1, 20 for
  \<open>r\<close> above 20 and \<open>r\<close> otherwise, so the stored radius is in \<open>[1, 20]\<close>; after
  any further sequence of calls on that remover, the radius its \<open>remove_watermark\<close>
  hands to \<open>cv2.inpaint\<close> is in that range.
\<close>

theorem set_inpaint_radius_clamps:
  "inpaint_radius (set_inpaint_radius r s) = (if r < 1 then 1 else if 20 < r then 20 else r) \<and>
   1 \<le> inpaint_radius (set_inpaint_radius r s) \<and> inpaint_radius (set_inpaint_radius r s) \<le> 20 \<and>
   (run ev cs (set_inpaint_radius r s) = Inr s' \<and> inpaint_request s' = Some (img, m, rad, alg) \<longrightarrow>
      1 \<le> rad \<and> rad \<le> 20)"
proof -
  have a: "inpaint_radius (set_inpaint_radius r s) = (if r < 1 then 1 else if 20 < r then 20 else r)"
    by (simp add: set_inpaint_radius_def)
  then have b: "1 \<le> inpaint_radius (set_inpaint_radius r s) \<and>
                inpaint_radius (set_inpaint_radius r s) \<le> 20"
    by auto
  have "1 \<le> rad \<and> rad \<le> 20"
    if "run ev cs (set_inpaint_radius r s) = Inr s'" "inpaint_request s' = Some (img, m, rad, alg)"
    using run_radius_range [OF that(1) b] inpaint_request_radius [OF that(2)] by simp
  with a b show ?thesis by blast
qed

theorem set_inpaint_radius_clamps_witness:
  "inpaint_radius (set_inpaint_radius 50 demo_loaded) = 20 \<and>
   inpaint_radius (set_inpaint_radius (- 4) demo_loaded) = 1 \<and>
   inpaint_radius (set_inpaint_radius 7 demo_loaded) = 7 \<and>
   run demo_env (stroke_ops demo_stroke) (set_inpaint_radius 50 demo_loaded)
     = Inr (demo_drawn\<lparr>inpaint_radius := 20\<rparr>) \<and>
   inpaint_request (demo_drawn\<lparr>inpaint_radius := 20\<rparr>)
     = Some ([[(10, 20, 30)]], [[255]], 20, INPAINT_TELEA)"
proof -
  have r: "run demo_env (stroke_ops demo_stroke) (set_inpaint_radius 50 demo_loaded)
             = Inr (demo_drawn\<lparr>inpaint_radius := 20\<rparr>)"
    by code_simp
  have q: "inpaint_request (demo_drawn\<lparr>inpaint_radius := 20\<rparr>)
             = Some ([[(10, 20, 30)]], [[255]], 20, INPAINT_TELEA)"
    by code_simp
  from set_inpaint_radius_clamps [of 50 demo_loaded] set_inpaint_radius_clamps [of "- 4" demo_loaded]
    set_inpaint_radius_clamps [of 7 demo_loaded]
    set_inpaint_radius_clamps [of 50 demo_loaded demo_env "stroke_ops demo_stroke"
      "demo_drawn\<lparr>inpaint_radius := 20\<rparr>" "[[(10, 20, 30)]]" "[[255]]" 20 INPAINT_TELEA] r q
  show ?thesis by simp
qed

lemma process_item_request:
  "process_item ev b image_path template_mask =
     (case item_request ev b image_path template_mask of
        None \<Rightarrow> None
      | Some (img, m, rad, alg) \<Rightarrow> cv_inpaint ev img m rad alg)"
  by (simp add: process_item_def item_request_def split: read_result.splits prod.splits option.splits)

text \<open>
  Claim C10 as stated fails for the oracle calls of a batch: \<open>set_parameters\<close> with
  radius 50 calls \<open>set_inpaint_radius\<close> on the template remover, which stores 20, and
  keeps 50 in the batch processor's own field, and \<open>_process_single_image\<close> calls
  \<open>cv2.inpaint\<close> with that field.
\<close>

theorem batch_radius_counterexample:
  "inpaint_radius (template_watermark_remover wide_batch) = 20 \<and>
   template_watermark_remover wide_batch
     = set_advanced_method ''none'' (set_algorithm ''TELEA'' (set_inpaint_radius 50 demo_template)) \<and>
   b_inpaint_radius wide_batch = 50 \<and>
   item_request demo_env wide_batch ''b.png'' [[255, 255, 0]]
     = Some ([[(1, 2, 3), (4, 5, 6), (7, 8, 9)]], [[255, 255, 0]], 50, INPAINT_TELEA)"
  by code_simp

section \<open>Removal with an unmarked mask\<close>

lemma fold_max_zero: "fold max vs (v::nat) = 0 \<longleftrightarrow> v = 0 \<and> (\<forall>x \<in> set vs. x = 0)"
  by (induction vs arbitrary: v) (auto simp: max_def)

lemma flat_max_zero:
  "(case vs of [] \<Rightarrow> None | v # r \<Rightarrow> Some (fold max r (v::nat))) = Some 0
     \<longleftrightarrow> vs \<noteq> [] \<and> (\<forall>v \<in> set vs. v = 0)"
  by (cases vs) (auto simp: fold_max_zero)

lemma flat_max_none:
  "(case vs of [] \<Rightarrow> None | v # r \<Rightarrow> Some (fold max r (v::nat))) = None \<longleftrightarrow> vs = []"
  by (cases vs) auto

lemma np_max_zero: "np_max a = Some 0 \<longleftrightarrow> concat a \<noteq> [] \<and> (\<forall>v \<in> set (concat a). v = 0)"
  unfolding np_max_def by (rule flat_max_zero)

lemma np_max_none: "np_max a = None \<longleftrightarrow> concat a = []"
  unfolding np_max_def by (rule flat_max_none)

lemma cv_threshold_zero:
  "\<forall>v \<in> set (concat a). v = 0 \<Longrightarrow> \<forall>v \<in> set (concat (cv_threshold a)). v = 0"
  by (auto simp: cv_threshold_def)

lemma rectangular_nth:
  assumes "rectangular a" and "y < length a" and "x < snd (shape a)"
  shows "a ! y ! x \<in> set (concat a)"
proof -
  have "a ! y \<in> set a" using assms(2) by simp
  moreover from this assms(1,3) have "x < length (a ! y)" by (simp add: rectangular_def)
  ultimately show ?thesis by (metis in_set_conv_nth set_concat UN_I)
qed

lemma cv_resize_nearest_zero:
  assumes "rectangular a" and "\<forall>v \<in> set (concat a). v = 0" and "cv_resize_nearest a w h = Some b"
  shows "\<forall>v \<in> set (concat b). v = 0"
proof -
  obtain sh sw where sh: "shape a = (sh, sw)" by (cases "shape a")
  with assms(3) have pos: "0 < sh" "0 < sw"
    and b: "b = map (\<lambda>y. map (\<lambda>x. a ! min (sh - 1) (y * sh div h) ! min (sw - 1) (x * sw div w))
                                 [0..<w]) [0..<h]"
    by (auto simp: cv_resize_nearest_def split: if_splits)
  have len: "length a = sh" using sh by (simp add: shape_def)
  have "a ! min (sh - 1) i ! min (sw - 1) j = 0" for i j
  proof -
    have "min (sh - 1) i < length a" "min (sw - 1) j < snd (shape a)"
      using pos len sh by auto
    from rectangular_nth [OF assms(1) this] assms(2) show ?thesis by blast
  qed
  then show ?thesis unfolding b by auto
qed

lemma inpaint_request_unmarked:
  assumes "mask s = Some m" and "rectangular m" and "np_max m = Some 0"
  shows "inpaint_request s = None"
proof (cases "original_image s")
  case None
  then show ?thesis by (simp add: inpaint_request_def)
next
  case (Some orig)
  obtain h w where hw: "shape orig = (h, w)" by (cases "shape orig")
  from assms(3) have z: "\<forall>v \<in> set (concat m). v = 0" by (simp add: np_max_zero)
  show ?thesis
  proof (cases "cv_resize_nearest m w h")
    case None
    then show ?thesis using Some hw assms(1) by (simp add: inpaint_request_def)
  next
    case (Some b)
    from cv_threshold_zero [OF cv_resize_nearest_zero [OF assms(2) z Some]]
    have "\<forall>v \<in> set (concat (cv_threshold b)). v = 0" .
    then have "np_max (cv_threshold b) = None \<or> np_max (cv_threshold b) = Some 0"
      unfolding np_max_zero np_max_none by blast
    then show ?thesis using Some \<open>original_image s = Some orig\<close> hw assms(1)
      by (auto simp: inpaint_request_def Let_def)
  qed
qed

lemma core_failure_logged:
  "core_remove_watermark ev preview c = Inr (None, r) \<Longrightarrow>
   c_log r \<noteq> [] \<and> level (last (c_log r)) = ERROR"
  by (auto simp: core_remove_watermark_def split: option.splits if_splits prod.splits)

text \<open>
  Claim C5, as amended. For a mask without a marked pixel (\<open>np.max(mask) == 0\<close>):
  the core remover's \<open>remove_watermark\<close> returns the original image and logs at
  warning level, while every return of \<open>None\<close>, its failure value, ends on a log
  entry of error level; the interactive remover's \<open>remove_watermark\<close> returns
  \<open>False\<close>, stores no result and only resets its processing flag.
\<close>

theorem empty_mask_returns:
  assumes "np_max m = Some 0"
  shows "(c_original_image c = Some img \<and> c_mask c = Some m \<longrightarrow>
            core_remove_watermark ev preview c
              = Inr (Some img, c\<lparr>c_log := c_log c @ [LogNoMaskMarked]\<rparr>) \<and>
            level LogNoMaskMarked = WARNING) \<and>
         (core_remove_watermark ev preview c' = Inr (None, r) \<longrightarrow>
            c_log r \<noteq> [] \<and> level (last (c_log r)) = ERROR) \<and>
         (image_cur s \<noteq> None \<and> mask s = Some m \<and> rectangular m \<longrightarrow>
            remove_watermark ev s = (False, s\<lparr>is_processing := False\<rparr>))"
proof (intro conjI impI)
  assume "c_original_image c = Some img \<and> c_mask c = Some m"
  then show "core_remove_watermark ev preview c
              = Inr (Some img, c\<lparr>c_log := c_log c @ [LogNoMaskMarked]\<rparr>)"
    using assms by (simp add: core_remove_watermark_def)
next
  show "level LogNoMaskMarked = WARNING" by simp
next
  assume "core_remove_watermark ev preview c' = Inr (None, r)"
  then show "c_log r \<noteq> []" "level (last (c_log r)) = ERROR"
    by (simp_all add: core_failure_logged)
next
  assume a: "image_cur s \<noteq> None \<and> mask s = Some m \<and> rectangular m"
  with assms have "inpaint_request s = None" by (simp add: inpaint_request_unmarked)
  with a show "remove_watermark ev s = (False, s\<lparr>is_processing := False\<rparr>)"
    by (auto simp: remove_watermark_def)
qed

lemma demo_loaded_eq:
  "demo_loaded =
     \<lparr>image_cur = Some [[(10, 20, 30)]], original_image = Some [[(10, 20, 30)]],
      mask = Some [[0]], result_image = None, inpaint_radius = 3,
      algorithm = INPAINT_TELEA, advanced_method = ''none'', is_processing = False,
      display_width = 0, display_height = 0, scale_factor = 1,
      mask_history = [[[0]]], history_index = 0\<rparr>"
  by (simp add: demo_loaded_def load_image_def demo_env_def demo_imread_def shape_def
                init_remover_def save_mask_to_history_def np_zeros_def)

theorem empty_mask_returns_witness:
  "np_max [replicate 10 0] = Some 0 \<and>
   core_remove_watermark demo_env False demo_core
     = Inr (Some [replicate 10 (10, 20, 30)], demo_core\<lparr>c_log := [LogNoMaskMarked]\<rparr>) \<and>
   core_remove_watermark demo_env False (demo_core\<lparr>c_mask := None\<rparr>)
     = Inr (None, demo_core\<lparr>c_mask := None, c_log := [LogNoImageOrMask]\<rparr>) \<and>
   level (last (c_log (demo_core\<lparr>c_mask := None, c_log := [LogNoImageOrMask]\<rparr>))) = ERROR \<and>
   rectangular [[0::nat]] \<and>
   remove_watermark demo_env demo_loaded = (False, demo_loaded)"
proof -
  have n10: "np_max [replicate 10 0] = Some 0" by code_simp
  have n1: "np_max [[0]] = Some 0" by (simp add: np_max_def)
  have r: "rectangular [[0::nat]]" by (simp add: rectangular_def shape_def)
  have f: "core_remove_watermark demo_env False (demo_core\<lparr>c_mask := None\<rparr>)
     = Inr (None, demo_core\<lparr>c_mask := None, c_log := [LogNoImageOrMask]\<rparr>)"
    by (simp add: core_remove_watermark_def demo_core_def)
  from empty_mask_returns [OF n10, where c = demo_core and img = "[replicate 10 (10, 20, 30)]"
      and ev = demo_env and preview = False and c' = "demo_core\<lparr>c_mask := None\<rparr>"
      and r = "demo_core\<lparr>c_mask := None, c_log := [LogNoImageOrMask]\<rparr>"] f
  have a: "core_remove_watermark demo_env False demo_core
     = Inr (Some [replicate 10 (10, 20, 30)], demo_core\<lparr>c_log := [LogNoMaskMarked]\<rparr>) \<and>
     level (last (c_log (demo_core\<lparr>c_mask := None, c_log := [LogNoImageOrMask]\<rparr>))) = ERROR"
    by (simp add: demo_core_def)
  from empty_mask_returns [OF n1, where s = demo_loaded and ev = demo_env] r
  have "remove_watermark demo_env demo_loaded = (False, demo_loaded)"
    by (simp add: demo_loaded_eq)
  with n10 a f r show ?thesis by blast
qed

text \<open>
  Claim C5 as stated fails for the interactive remover: on the unmarked one-pixel mask
  \<open>remove_watermark\<close> returns \<open>False\<close> and leaves \<open>result_image\<close> empty, and
  \<open>False\<close> is also what it returns when the inpainting routine raises on a marked
  mask.
\<close>

theorem empty_mask_counterexample:
  "np_max [[0]] = Some 0 \<and> mask demo_loaded = Some [[0]] \<and>
   fst (remove_watermark demo_env demo_loaded) = False \<and>
   result_image (snd (remove_watermark demo_env demo_loaded)) = None \<and>
   fst (remove_watermark failing_env demo_drawn) = False"
  by code_simp

section \<open>The automatic choice of the algorithm\<close>



section \<open>Detection\<close>

lemma clamp_unit: "0 \<le> py_max 0 (py_min 1 c) \<and> py_max 0 (py_min 1 c) \<le> 1"
  by (simp add: py_max_def py_min_def)

lemma make_region_confidence:
  "0 \<le> confidence (make_region ev img b) \<and> confidence (make_region ev img b) \<le> 1"
  by (cases b) (simp add: make_region_def calculate_watermark_confidence_def Let_def clamp_unit)

lemma sort_key_descending:
  "sorted_wrt (\<lambda>a b. confidence b \<le> confidence a) (sort_key (\<lambda>r. - confidence r) rs)"
proof -
  have "sorted (map (\<lambda>r. - confidence r) (sort_key (\<lambda>r. - confidence r) rs))"
    by (rule sorted_sort_key)
  then show ?thesis by (simp add: sorted_map)
qed

lemma detect_watermark_result:
  "fst (detect_watermark ev s) = [] \<or>
   (\<exists>img boxes. fst (detect_watermark ev s)
      = take 5 (sort_key (\<lambda>r. - confidence r) (map (make_region ev img) boxes)))"
  by (auto simp: detect_watermark_def Let_def split: option.splits)

text \<open>
  Claim C8. \<open>detect_watermark\<close> returns at most 5 regions, the confidence of each is
  in \<open>[0, 1]\<close>, and the list is in non-increasing order of confidence.
\<close>

theorem detect_watermark_bounds:
  "length (fst (detect_watermark ev s)) \<le> 5 \<and>
   (\<forall>r \<in> set (fst (detect_watermark ev s)). 0 \<le> confidence r \<and> confidence r \<le> 1) \<and>
   sorted_wrt (\<lambda>a b. confidence b \<le> confidence a) (fst (detect_watermark ev s))"
proof -
  from detect_watermark_result [of ev s] show ?thesis
  proof
    assume "fst (detect_watermark ev s) = []"
    then show ?thesis by simp
  next
    assume "\<exists>img boxes. fst (detect_watermark ev s)
      = take 5 (sort_key (\<lambda>r. - confidence r) (map (make_region ev img) boxes))"
    then obtain img boxes where
      eq: "fst (detect_watermark ev s)
             = take 5 (sort_key (\<lambda>r. - confidence r) (map (make_region ev img) boxes))"
      by blast
    let ?rs = "sort_key (\<lambda>r. - confidence r) (map (make_region ev img) boxes)"
    have "length (take 5 ?rs) \<le> 5" by simp
    moreover have "\<forall>r \<in> set (take 5 ?rs). 0 \<le> confidence r \<and> confidence r \<le> 1"
    proof
      fix r assume "r \<in> set (take 5 ?rs)"
      then have "r \<in> set ?rs" by (rule in_set_takeD)
      then have "r \<in> set (map (make_region ev img) boxes)" by simp
      then show "0 \<le> confidence r \<and> confidence r \<le> 1"
        using make_region_confidence by auto
    qed
    moreover have "sorted_wrt (\<lambda>a b. confidence b \<le> confidence a) (take 5 ?rs)"
      using sort_key_descending by (rule sorted_wrt_take)
    ultimately show ?thesis unfolding eq by blast
  qed
qed

theorem detect_watermark_bounds_witness:
  "map rx (fst (detect_watermark demo_env demo_core)) = [3, 4, 5, 6, 2] \<and>
   map confidence (fst (detect_watermark demo_env demo_core)) = [1, 1, 1, 1, 9 / 10] \<and>
   length (fst (detect_watermark demo_env demo_core)) \<le> 5 \<and>
   sorted_wrt (\<lambda>a b. confidence b \<le> confidence a) (fst (detect_watermark demo_env demo_core))"
proof -
  have "map rx (fst (detect_watermark demo_env demo_core)) = [3, 4, 5, 6, 2]" by code_simp
  moreover have "map confidence (fst (detect_watermark demo_env demo_core)) = [1, 1, 1, 1, 9 / 10]"
    by code_simp
  ultimately show ?thesis using detect_watermark_bounds [of demo_env demo_core] by blast
qed

section \<open>The counters of a batch\<close>












section \<open>The pre-flight checks of a batch\<close>

text \<open>
  Claim C6. For a template mask that is absent or has at least one pixel,
  \<open>start_batch_processing\<close> does not raise and answers by the first failing check,
  in this order: template mask absent or without a marked pixel, no source paths, no
  output directory, already processing. A refusal returns \<open>False\<close>, starts no thread,
  leaves the state as it was and calls the error callback, when one is given, once
  with the message of that check. Only when all four checks pass does it return
  \<open>True\<close>, reset the counters and start the thread.
\<close>

theorem start_batch_processing_checks:
  assumes "template_unmarked b \<or> template_marked b"
  shows "(\<exists>r. start_batch_processing cbs b = Inr r) \<and>
         (template_unmarked b \<longrightarrow>
            start_batch_processing cbs b = Inr (refuse cbs MsgNoWatermark b)) \<and>
         (template_marked b \<and> image_paths b = [] \<longrightarrow>
            start_batch_processing cbs b = Inr (refuse cbs MsgNoImages b)) \<and>
         (template_marked b \<and> image_paths b \<noteq> [] \<and> output_dir b = [] \<longrightarrow>
            start_batch_processing cbs b = Inr (refuse cbs MsgNoOutputDir b)) \<and>
         (template_marked b \<and> image_paths b \<noteq> [] \<and> output_dir b \<noteq> [] \<and> b_is_processing b \<longrightarrow>
            start_batch_processing cbs b = Inr (refuse cbs MsgBusy b)) \<and>
         (template_marked b \<and> image_paths b \<noteq> [] \<and> output_dir b \<noteq> [] \<and> \<not> b_is_processing b \<longrightarrow>
            start_batch_processing cbs b
              = Inr \<lparr>started = True, calls = [], launched = True,
                     state_after = b\<lparr>b_is_processing := True, should_stop := False,
                                       processed_count := 0, success_count := 0,
                                       failed_paths := []\<rparr>\<rparr>) \<and>
         started (refuse cbs msg b) = False \<and> launched (refuse cbs msg b) = False \<and>
         state_after (refuse cbs msg b) = b \<and>
         (has_error cbs \<longrightarrow> calls (refuse cbs msg b) = [OnError msg]) \<and>
         (start_batch_processing cbs b = Inr r' \<and> started r' \<longrightarrow>
            template_marked b \<and> image_paths b \<noteq> [] \<and> output_dir b \<noteq> [] \<and> \<not> b_is_processing b)"
  using assms
  by (auto simp: start_batch_processing_def template_unmarked_def template_marked_def refuse_def
           split: option.splits)

theorem start_batch_processing_checks_witness:
  "template_marked demo_batch \<and>
   template_unmarked (demo_batch\<lparr>template_watermark_remover := init_remover\<rparr>) \<and>
   start_batch_processing all_callbacks
       (demo_batch\<lparr>template_watermark_remover := init_remover, image_paths := [], output_dir := []\<rparr>)
     = Inr \<lparr>started = False, calls = [OnError MsgNoWatermark], launched = False,
            state_after = demo_batch\<lparr>template_watermark_remover := init_remover, image_paths := [],
                                       output_dir := []\<rparr>\<rparr> \<and>
   start_batch_processing all_callbacks (demo_batch\<lparr>image_paths := [], output_dir := []\<rparr>)
     = Inr \<lparr>started = False, calls = [OnError MsgNoImages], launched = False,
            state_after = demo_batch\<lparr>image_paths := [], output_dir := []\<rparr>\<rparr> \<and>
   start_batch_processing all_callbacks (demo_batch\<lparr>output_dir := [], b_is_processing := True\<rparr>)
     = Inr \<lparr>started = False, calls = [OnError MsgNoOutputDir], launched = False,
            state_after = demo_batch\<lparr>output_dir := [], b_is_processing := True\<rparr>\<rparr> \<and>
   start_batch_processing all_callbacks (demo_batch\<lparr>b_is_processing := True\<rparr>)
     = Inr \<lparr>started = False, calls = [OnError MsgBusy], launched = False,
            state_after = demo_batch\<lparr>b_is_processing := True\<rparr>\<rparr> \<and>
   start_batch_processing all_callbacks demo_batch
     = Inr \<lparr>started = True, calls = [], launched = True, state_after = demo_started\<rparr>"
proof -
  have tm: "template_marked demo_batch" by code_simp
  have tu: "template_unmarked (demo_batch\<lparr>template_watermark_remover := init_remover\<rparr>)"
    by (simp add: template_unmarked_def init_remover_def)
  have e: "has_error all_callbacks" by (simp add: all_callbacks_def)
  have tm': "template_marked (b\<lparr>image_paths := ps, output_dir := d, b_is_processing := p\<rparr>)
               = template_marked b" for b ps d p
    by (simp add: template_marked_def)
  let ?b1 = "demo_batch\<lparr>template_watermark_remover := init_remover, image_paths := [], output_dir := []\<rparr>"
  let ?b2 = "demo_batch\<lparr>image_paths := [], output_dir := []\<rparr>"
  let ?b3 = "demo_batch\<lparr>output_dir := [], b_is_processing := True\<rparr>"
  let ?b4 = "demo_batch\<lparr>b_is_processing := True\<rparr>"
  have u1: "template_unmarked ?b1" by (simp add: template_unmarked_def init_remover_def)
  have m2: "template_marked ?b2" "template_marked ?b3" "template_marked ?b4"
    using tm by (simp_all add: template_marked_def)
  have p: "image_paths demo_batch \<noteq> []" "output_dir demo_batch \<noteq> []" "\<not> b_is_processing demo_batch"
    by (simp_all add: demo_batch_def)
  from start_batch_processing_checks [of ?b1 all_callbacks MsgNoWatermark] u1 e
  have r1: "start_batch_processing all_callbacks ?b1
     = Inr \<lparr>started = False, calls = [OnError MsgNoWatermark], launched = False, state_after = ?b1\<rparr>"
    by (simp add: refuse_def)
  from start_batch_processing_checks [of ?b2 all_callbacks MsgNoImages] m2 e
  have r2: "start_batch_processing all_callbacks ?b2
     = Inr \<lparr>started = False, calls = [OnError MsgNoImages], launched = False, state_after = ?b2\<rparr>"
    by (simp add: refuse_def)
  from start_batch_processing_checks [of ?b3 all_callbacks MsgNoOutputDir] m2 e p
  have r3: "start_batch_processing all_callbacks ?b3
     = Inr \<lparr>started = False, calls = [OnError MsgNoOutputDir], launched = False, state_after = ?b3\<rparr>"
    by (simp add: refuse_def)
  from start_batch_processing_checks [of ?b4 all_callbacks MsgBusy] m2 e p
  have r4: "start_batch_processing all_callbacks ?b4
     = Inr \<lparr>started = False, calls = [OnError MsgBusy], launched = False, state_after = ?b4\<rparr>"
    by (simp add: refuse_def)
  from start_batch_processing_checks [of demo_batch all_callbacks MsgBusy] tm p
  have r5: "start_batch_processing all_callbacks demo_batch
     = Inr \<lparr>started = True, calls = [], launched = True, state_after = demo_started\<rparr>"
    by (simp add: demo_started_def demo_batch_def)
  from tm tu r1 r2 r3 r4 r5 show ?thesis by blast
qed

section \<open>The template mask during a batch\<close>

text \<open>
  Claim C9 does not hold of the code: \<open>_batch_process_thread\<close> binds
  \<open>template_mask\<close> to the array of the template remover without copying it. With the
  first two of three pixels marked at the start, a worker that runs before any edit
  inpaints those two pixels; a worker that runs after the interface thread painted the
  third pixel (\<open>start_draw\<close>, which writes into the array) inpaints all three; after
  \<open>clear_mask\<close>, which binds the remover's field to a new array, later painting is
  not seen by the worker.
\<close>

theorem template_mask_aliased:
  "batch_outputs demo_env demo_started [Work 0]
     = [(0, Some [[(0, 0, 0), (0, 0, 0), (7, 8, 9)]])] \<and>
   batch_outputs demo_env demo_started [Ui (StartDraw (2, 0) 2), Work 0]
     = [(0, Some [[(0, 0, 0), (0, 0, 0), (0, 0, 0)]])] \<and>
   batch_outputs demo_env demo_started [Ui ClearMask, Ui (StartDraw (2, 0) 2), Work 0]
     = [(0, Some [[(0, 0, 0), (0, 0, 0), (7, 8, 9)]])]"
  by code_simp

end
